theory Spec2Isabelle
  imports Complex_Main "HOL-Library.Sublist" "HOL-Library.Multiset"
begin

section \<open>Strings\<close>

text \<open>
  A Python \<open>str\<close> is modelled as a \<open>string\<close>: a list of characters whose code points lie
  below 256. The character classes below are Python's on that range: \<open>isspace\<close> is the
  class matched by \<open>\s\<close> in a \<open>str\<close> pattern and removed by \<open>str.strip()\<close>, and
  \<open>lower\<close> is \<open>str.lower()\<close>.
\<close>

definition isspace :: "char \<Rightarrow> bool" where
  "isspace c = ((of_char c :: nat) \<in> {9, 10, 11, 12, 13, 28, 29, 30, 31, 32, 133, 160})"

definition lower_char :: "char \<Rightarrow> char" where
  "lower_char c =
     (let n = (of_char c :: nat)
      in if (65 \<le> n \<and> n \<le> 90) \<or> (192 \<le> n \<and> n \<le> 222 \<and> n \<noteq> 215)
         then char_of (n + 32) else c)"

definition lower :: "string \<Rightarrow> string" where
  "lower s = map lower_char s"

text \<open>\<open>str_in sub s\<close> is Python's \<open>sub in s\<close> on strings.\<close>

fun str_in :: "string \<Rightarrow> string \<Rightarrow> bool" where
  "str_in sub [] = (sub = [])"
| "str_in sub (c # cs) = (prefix sub (c # cs) \<or> str_in sub cs)"

definition strip :: "string \<Rightarrow> string" where
  "strip s = rev (dropWhile isspace (rev (dropWhile isspace s)))"

definition digit_char :: "nat \<Rightarrow> char" where
  "digit_char d =
     (if d = 0 then CHR ''0'' else if d = 1 then CHR ''1'' else if d = 2 then CHR ''2''
      else if d = 3 then CHR ''3'' else if d = 4 then CHR ''4'' else if d = 5 then CHR ''5''
      else if d = 6 then CHR ''6'' else if d = 7 then CHR ''7'' else if d = 8 then CHR ''8''
      else CHR ''9'')"

fun str_nat :: "nat \<Rightarrow> string" where
  "str_nat n = (if n < 10 then [digit_char n] else str_nat (n div 10) @ [digit_char (n mod 10)])"

text \<open>\<open>str_int i\<close> is what an f-string prints for the integer \<open>i\<close>.\<close>

definition str_int :: "int \<Rightarrow> string" where
  "str_int i = (if i < 0 then CHR ''-'' # str_nat (nat (- i)) else str_nat (nat i))"

section \<open>Normalising the raw response: \<open>LLMIntegration._clean_json_string\<close>\<close>

text \<open>
  The three substitutions of the source, in its order.

  \<^item> \<^verbatim>\<open>re.sub(r'^[^{]*', '', s)\<close>: the pattern is anchored at the start, so its only
    non-empty match is the longest prefix without an opening brace.
  \<^item> \<^verbatim>\<open>re.sub(r'[^}]*$', '', s)\<close>: the leftmost match that reaches the end starts right
    after the last closing brace (at the start when there is none).
  \<^item> \<^verbatim>\<open>re.sub(r',\s*([}\]])', r'\1', s)\<close>: scanning from the left, a comma followed by
    white space and a closing brace or bracket is replaced by that brace or bracket, and
    the scan goes on after it; any other character is copied.
\<close>

definition drop_before_brace :: "string \<Rightarrow> string" where
  "drop_before_brace s = dropWhile (\<lambda>c. c \<noteq> CHR ''{'') s"

definition drop_after_brace :: "string \<Rightarrow> string" where
  "drop_after_brace s = rev (dropWhile (\<lambda>c. c \<noteq> CHR ''}'') (rev s))"

function sub_trailing_commas :: "string \<Rightarrow> string" where
  "sub_trailing_commas [] = []"
| "sub_trailing_commas (c # cs) =
     (if c = CHR '',''
      then (case dropWhile isspace cs of
              [] \<Rightarrow> c # sub_trailing_commas cs
            | d # ds \<Rightarrow>
                if d = CHR ''}'' \<or> d = CHR '']''
                then d # sub_trailing_commas ds
                else c # sub_trailing_commas cs)
      else c # sub_trailing_commas cs)"
  by pat_completeness auto
termination
proof (relation "measure length")
  fix c :: char and cs d ds
  assume "dropWhile isspace cs = d # ds"
  then have "length (d # ds) \<le> length cs"
    by (metis length_dropWhile_le)
  then show "(ds, c # cs) \<in> measure length" by simp
qed auto

definition clean_json_string :: "string \<Rightarrow> string" where
  "clean_json_string s =
     (let s1 = drop_before_brace s;
          s2 = drop_after_brace s1;
          s3 = sub_trailing_commas s2
      in strip s3)"

section \<open>JSON values\<close>

text \<open>
  What the parser returns and what the report is made of. A Python \<open>dict\<close> is an
  association list in insertion order; \<open>dict_set\<close> is the assignment \<open>d[k] = v\<close>, which
  keeps the position of a key that is already there. Numbers are the integers.
\<close>

datatype json =
    JNull
  | JBool bool
  | JNum int
  | JStr string
  | JArr "json list"
  | JObj "(string \<times> json) list"

fun dict_set :: "(string \<times> json) list \<Rightarrow> string \<Rightarrow> json \<Rightarrow> (string \<times> json) list" where
  "dict_set [] k v = [(k, v)]"
| "dict_set ((k', v') # d) k v = (if k' = k then (k, v) # d else (k', v') # dict_set d k v)"

subsection \<open>A reference reader for JSON text\<close>

text \<open>
  The parser itself (\<open>SimpleJsonOutputParser\<close>) belongs to a library; the functions of the
  repository that call it take it as a parameter. To say what a given text parses to, this
  is a reader for the JSON grammar: objects, arrays, strings with the one-character
  escapes, integers and the three literals, white space between tokens. The first
  argument bounds the nesting depth.
\<close>

definition dq :: char where
  "dq = CHR 0x22"

definition backslash :: char where
  "backslash = CHR 0x5C"

definition is_json_ws :: "char \<Rightarrow> bool" where
  "is_json_ws c = (c = CHR '' '' \<or> c = CHR 0x09 \<or> c = CHR 0x0A \<or> c = CHR 0x0D)"

definition skip_ws :: "string \<Rightarrow> string" where
  "skip_ws s = dropWhile is_json_ws s"

definition unescape :: "char \<Rightarrow> char option" where
  "unescape e =
     (if e = dq then Some dq
      else if e = backslash then Some backslash
      else if e = CHR ''/'' then Some (CHR ''/'')
      else if e = CHR ''b'' then Some (CHR 0x08)
      else if e = CHR ''f'' then Some (CHR 0x0C)
      else if e = CHR ''n'' then Some (CHR 0x0A)
      else if e = CHR ''r'' then Some (CHR 0x0D)
      else if e = CHR ''t'' then Some (CHR 0x09)
      else None)"

text \<open>\<open>scan_string\<close> reads a string's characters after its opening quote.\<close>

fun scan_string :: "string \<Rightarrow> (string \<times> string) option" where
  "scan_string [] = None"
| "scan_string [c] = (if c = dq then Some ([], []) else None)"
| "scan_string (c # e # r) =
     (if c = dq then Some ([], e # r)
      else if c = backslash
      then (case unescape e of
              None \<Rightarrow> None
            | Some ch \<Rightarrow> map_option (apfst ((#) ch)) (scan_string r))
      else map_option (apfst ((#) c)) (scan_string (e # r)))"

definition is_digit :: "char \<Rightarrow> bool" where
  "is_digit c = (48 \<le> (of_char c :: nat) \<and> (of_char c :: nat) \<le> 57)"

definition digits_value :: "string \<Rightarrow> int" where
  "digits_value ds = foldl (\<lambda>a c. 10 * a + (int (of_char c) - 48)) 0 ds"

definition scan_number :: "string \<Rightarrow> (json \<times> string) option" where
  "scan_number s =
     (let neg = (s \<noteq> [] \<and> hd s = CHR ''-'');
          t = (if neg then tl s else s);
          ds = takeWhile is_digit t;
          r = dropWhile is_digit t
      in if ds = [] \<or> (r \<noteq> [] \<and> hd r \<in> {CHR ''.'', CHR ''e'', CHR ''E''}) then None
         else Some (JNum (if neg then - digits_value ds else digits_value ds), r))"

fun parse_value :: "nat \<Rightarrow> string \<Rightarrow> (json \<times> string) option"
  and parse_items :: "nat \<Rightarrow> json list \<Rightarrow> string \<Rightarrow> (json \<times> string) option"
  and parse_pairs :: "nat \<Rightarrow> (string \<times> json) list \<Rightarrow> string \<Rightarrow> (json \<times> string) option"
where
  "parse_value 0 s = None"
| "parse_value (Suc n) s =
     (case skip_ws s of
        [] \<Rightarrow> None
      | c # cs \<Rightarrow>
          if c = CHR ''{''
          then (case skip_ws cs of
                  [] \<Rightarrow> None
                | d # ds \<Rightarrow> if d = CHR ''}'' then Some (JObj [], ds) else parse_pairs n [] (d # ds))
          else if c = CHR ''[''
          then (case skip_ws cs of
                  [] \<Rightarrow> None
                | d # ds \<Rightarrow> if d = CHR '']'' then Some (JArr [], ds) else parse_items n [] (d # ds))
          else if c = dq then map_option (apfst JStr) (scan_string cs)
          else if prefix ''true'' (c # cs) then Some (JBool True, drop 4 (c # cs))
          else if prefix ''false'' (c # cs) then Some (JBool False, drop 5 (c # cs))
          else if prefix ''null'' (c # cs) then Some (JNull, drop 4 (c # cs))
          else scan_number (c # cs))"
| "parse_items 0 acc s = None"
| "parse_items (Suc n) acc s =
     (case parse_value n s of
        None \<Rightarrow> None
      | Some (v, r) \<Rightarrow>
          (case skip_ws r of
             [] \<Rightarrow> None
           | d # ds \<Rightarrow>
               if d = CHR '','' then parse_items n (acc @ [v]) ds
               else if d = CHR '']'' then Some (JArr (acc @ [v]), ds)
               else None))"
| "parse_pairs 0 acc s = None"
| "parse_pairs (Suc n) acc s =
     (case skip_ws s of
        [] \<Rightarrow> None
      | q # qs \<Rightarrow>
          if q \<noteq> dq then None
          else (case scan_string qs of
                  None \<Rightarrow> None
                | Some (k, r) \<Rightarrow>
                    (case skip_ws r of
                       [] \<Rightarrow> None
                     | col # r2 \<Rightarrow>
                         if col \<noteq> CHR '':'' then None
                         else (case parse_value n r2 of
                                 None \<Rightarrow> None
                               | Some (v, r3) \<Rightarrow>
                                   (case skip_ws r3 of
                                      [] \<Rightarrow> None
                                    | d # ds \<Rightarrow>
                                        if d = CHR '','' then parse_pairs n (dict_set acc k v) ds
                                        else if d = CHR ''}'' then Some (JObj (dict_set acc k v), ds)
                                        else None)))))"

definition json_loads :: "string \<Rightarrow> json option" where
  "json_loads s =
     (case parse_value (Suc (length s)) s of
        None \<Rightarrow> None
      | Some (v, r) \<Rightarrow> if skip_ws r = [] then Some v else None)"

section \<open>The oracle client: \<open>LLMIntegration.analyze_code_chunk\<close>\<close>

text \<open>
  An exception is its class name (\<open>type(e).__name__\<close>) and its message (\<open>str(e)\<close>). A
  function that can raise returns \<open>exn + 'a\<close>, with \<open>Inl\<close> for the exception that leaves it.
\<close>

datatype exn = Exn (exn_class: string) (exn_msg: string)

text \<open>
  The two collaborators of the client are parameters: the parser, and the transport
  \<open>self.llm.invoke\<close>. The transport is given by what its \<open>k\<close>-th call (counted from 0
  within one analysis) does with the prompt: it raises, or it returns the response's
  content.
\<close>

type_synonym parser = "string \<Rightarrow> exn + json"

type_synonym transport = "nat \<Rightarrow> string \<Rightarrow> exn + string"

definition prompt_head :: string where
  \<open>prompt_head =
     ''\<newline>You are an expert software architect and codebase analyst. Your task is to analyze the following code chunk and extract structured, in-depth knowledge for documentation and onboarding purposes.\<newline>''
   @ ''\<newline>For the given code chunk, provide a JSON object with the following keys:\<newline>\<newline>''
   @ ''- "overview": A concise, high-level summary of the code's purpose and functionality. If possible, relate it to the overall project context.\<newline>''
   @ ''- "methods": An array of objects, each describing a key method or function. For each, include:\<newline>''
   @ ''    - "name": The method/function name\<newline>''
   @ ''    - "signature": The full method/function signature\<newline>''
   @ ''    - "description": A clear, human-readable explanation of what it does\<newline>''
   @ ''- "complexity": A brief assessment of the code's complexity (e.g., simple, moderate, complex) and why\<newline>''
   @ ''- "notes": Any other noteworthy aspects, such as design patterns, dependencies, or potential issues\<newline>''
   @ ''\<newline>IMPORTANT: Do not use trailing commas in arrays or objects. All property names and string values must be in double quotes. Do not add comments or extra text.\<newline>''
   @ ''\<newline>Return ONLY a valid, well-formatted JSON object with these keys. Do not include any extra commentary or markdown.\<newline>''
   @ ''\<newline>Code chunk:\<newline>''\<close>

definition build_prompt :: "string \<Rightarrow> string" where
  "build_prompt chunk = prompt_head @ chunk @ ''\<newline>''"

text \<open>The test of the handler: is the message one of rate limiting?\<close>

definition is_rate_limit :: "string \<Rightarrow> bool" where
  "is_rate_limit err_msg =
     (str_in ''rate limit'' (lower err_msg) \<or> str_in ''429'' err_msg
      \<or> str_in ''rate_limit_exceeded'' err_msg)"

text \<open>
  What an analysis does besides returning: it calls the transport and it sleeps. The
  trace lists both in the order in which they happen.
\<close>

datatype event = Invoke string | Sleep real

text \<open>
  The body of the \<open>try\<close>: the call, the normalisation of the content and the parse. An
  exception of any of them reaches the one handler.
\<close>

definition try_body :: "parser \<Rightarrow> (exn + string) \<Rightarrow> exn + json" where
  "try_body parse response =
     (case response of
        Inl e \<Rightarrow> Inl e
      | Inr raw_content \<Rightarrow> parse (clean_json_string raw_content))"

text \<open>
  The handler of a rate-limit error runs \<open>wait_time = self.base_delay * (2 ** attempt)\<close>
  and then sleeps for \<open>wait_time\<close>. \<open>base_delay\<close> is a float (not NaN) in the source; the
  model takes it as a real number. To multiply, the interpreter turns the integer
  \<open>2 ** attempt\<close> into a float, which raises \<open>OverflowError\<close> from \<open>2 ** 1024\<close> on. The
  product of a float and a power of two is exact as long as it is no larger than the
  largest float, and it is infinite beyond that.
\<close>

definition float_max :: real where
  "float_max = (2 ^ 53 - 1) * 2 ^ 971"

definition int_too_large :: exn where
  "int_too_large = Exn ''OverflowError'' ''int too large to convert to float''"

text \<open>
  What \<open>time.sleep\<close> does with a finite length is the interpreter's and the platform's
  affair: it raises, or it returns when the time has passed. It is a parameter of the
  analysis, like the parser and the transport. An infinite length is refused by
  \<open>time.sleep\<close> with \<open>OverflowError\<close>.
\<close>

type_synonym sleeper = "real \<Rightarrow> exn option"

definition sleep_overflow :: exn where
  "sleep_overflow = Exn ''OverflowError'' ''timestamp out of range for platform time_t''"

text \<open>
  The two statements of the handler, the product and \<open>time.sleep\<close>: an exception of
  either, or the length that has been slept.
\<close>

definition backoff :: "sleeper \<Rightarrow> real \<Rightarrow> nat \<Rightarrow> exn + real" where
  "backoff sleep base_delay attempt =
     (if 1024 \<le> attempt then Inl int_too_large
      else (let wait_time = base_delay * 2 ^ attempt
            in if float_max < \<bar>wait_time\<bar> then Inl sleep_overflow
               else (case sleep wait_time of
                       Some e \<Rightarrow> Inl e
                     | None \<Rightarrow> Inr wait_time)))"

text \<open>
  \<open>time.sleep\<close> of CPython 3.11 on a 64-bit platform keeps the length as a signed 64-bit
  count of nanoseconds. A length outside that range raises \<open>OverflowError\<close>, a negative
  length inside it raises \<open>ValueError\<close>, and any other length is slept. (Linux refuses
  with \<open>OSError\<close> a length so close to the end of the range that the deadline, the clock
  plus the length, leaves it; the lengths at which \<open>time_sleep\<close> is evaluated below are
  far from there.)
\<close>

definition sleep_limit :: real where
  "sleep_limit = 2 ^ 63 / 10 ^ 9"

definition sleep_error :: exn where
  "sleep_error = Exn ''ValueError'' ''sleep length must be non-negative''"

definition time_sleep :: sleeper where
  "time_sleep secs =
     (if sleep_limit \<le> secs \<or> secs < - sleep_limit then Some sleep_overflow
      else if secs < 0 then Some sleep_error
      else None)"

definition rate_limit_exceeded :: "int \<Rightarrow> json" where
  "rate_limit_exceeded max_retries =
     JObj [(''error'', JStr (''Rate limit exceeded after '' @ str_int max_retries @ '' retries.''))]"

text \<open>
  The \<open>while\<close> loop, from the value of \<open>attempt\<close> and the trace so far. An exception that
  the handler itself raises, in the product or in the sleep, leaves the analysis.
\<close>

function analyze_loop ::
  "parser \<Rightarrow> transport \<Rightarrow> sleeper \<Rightarrow> string \<Rightarrow> int \<Rightarrow> real \<Rightarrow> nat \<Rightarrow> event list
     \<Rightarrow> (exn + json) \<times> event list"
where
  "analyze_loop parse llm sleep chunk max_retries base_delay attempt trace =
     (if int attempt < max_retries
      then (let prompt = build_prompt chunk;
                trace1 = trace @ [Invoke prompt]
            in case try_body parse (llm attempt prompt) of
                 Inr parsed \<Rightarrow> (Inr parsed, trace1)
               | Inl e \<Rightarrow>
                   if is_rate_limit (exn_msg e)
                   then (case backoff sleep base_delay attempt of
                           Inl err \<Rightarrow> (Inl err, trace1)
                         | Inr wait_time \<Rightarrow>
                             analyze_loop parse llm sleep chunk max_retries base_delay (attempt + 1)
                               (trace1 @ [Sleep wait_time]))
                   else (Inl e, trace1))
      else (Inr (rate_limit_exceeded max_retries), trace))"
  by pat_completeness auto
termination
  by (relation "measure (\<lambda>(parse, llm, sleep, chunk, max_retries, base_delay, attempt, trace).
                          nat (max_retries - int attempt))") auto

definition analyze_code_chunk ::
  "parser \<Rightarrow> transport \<Rightarrow> sleeper \<Rightarrow> string \<Rightarrow> int \<Rightarrow> real \<Rightarrow> (exn + json) \<times> event list" where
  "analyze_code_chunk parse llm sleep chunk max_retries base_delay =
     analyze_loop parse llm sleep chunk max_retries base_delay 0 []"

text \<open>
  \<open>analyze_code_chunk_async\<close> has the same loop, with the call awaited and with
  \<open>asyncio.sleep\<close> in the place of \<open>time.sleep\<close>. \<open>asyncio.sleep\<close> raises for no length: one
  that is not positive ends at once, a positive one ends when the time has passed, and an
  infinite one never ends. An analysis that never ends has no result: \<open>None\<close>.
\<close>

definition backoff_async :: "real \<Rightarrow> nat \<Rightarrow> (exn + real) option" where
  "backoff_async base_delay attempt =
     (if 1024 \<le> attempt then Some (Inl int_too_large)
      else (let wait_time = base_delay * 2 ^ attempt
            in if float_max < wait_time then None
               else Some (Inr wait_time)))"

function analyze_loop_async ::
  "parser \<Rightarrow> transport \<Rightarrow> string \<Rightarrow> int \<Rightarrow> real \<Rightarrow> nat \<Rightarrow> event list
     \<Rightarrow> ((exn + json) \<times> event list) option"
where
  "analyze_loop_async parse llm chunk max_retries base_delay attempt trace =
     (if int attempt < max_retries
      then (let prompt = build_prompt chunk;
                trace1 = trace @ [Invoke prompt]
            in case try_body parse (llm attempt prompt) of
                 Inr parsed \<Rightarrow> Some (Inr parsed, trace1)
               | Inl e \<Rightarrow>
                   if is_rate_limit (exn_msg e)
                   then (case backoff_async base_delay attempt of
                           None \<Rightarrow> None
                         | Some (Inl err) \<Rightarrow> Some (Inl err, trace1)
                         | Some (Inr wait_time) \<Rightarrow>
                             analyze_loop_async parse llm chunk max_retries base_delay (attempt + 1)
                               (trace1 @ [Sleep wait_time]))
                   else Some (Inl e, trace1))
      else Some (Inr (rate_limit_exceeded max_retries), trace))"
  by pat_completeness auto
termination
  by (relation "measure (\<lambda>(parse, llm, chunk, max_retries, base_delay, attempt, trace).
                          nat (max_retries - int attempt))") auto

definition analyze_code_chunk_async ::
  "parser \<Rightarrow> transport \<Rightarrow> string \<Rightarrow> int \<Rightarrow> real \<Rightarrow> ((exn + json) \<times> event list) option" where
  "analyze_code_chunk_async parse llm chunk max_retries base_delay =
     analyze_loop_async parse llm chunk max_retries base_delay 0 []"

text \<open>The defaults of the two parameters: \<open>max_retries = 5\<close>, \<open>base_delay = 5.0\<close>.\<close>

definition default_max_retries :: int where
  "default_max_retries = 5"

definition default_base_delay :: real where
  "default_base_delay = 5"

text \<open>
  The parser of the library raises \<open>OutputParserException\<close> with the text in its message
  when the text is not JSON. With the reference reader in the place of its JSON reader:
\<close>

definition simple_json_output_parser :: parser where
  "simple_json_output_parser text =
     (case json_loads (strip text) of
        Some v \<Rightarrow> Inr v
      | None \<Rightarrow> Inl (Exn ''OutputParserException'' (''Invalid json output: '' @ strip text)))"

text \<open>The part of a trace that one failed, retried attempt contributes.\<close>

definition retry_round :: "string \<Rightarrow> real \<Rightarrow> nat \<Rightarrow> event list" where
  "retry_round chunk base_delay k = [Invoke (build_prompt chunk), Sleep (base_delay * 2 ^ k)]"

definition invocations :: "event list \<Rightarrow> string list" where
  "invocations trace = concat (map (\<lambda>ev. case ev of Invoke p \<Rightarrow> [p] | Sleep d \<Rightarrow> []) trace)"

definition delays :: "event list \<Rightarrow> real list" where
  "delays trace = concat (map (\<lambda>ev. case ev of Invoke p \<Rightarrow> [] | Sleep d \<Rightarrow> [d]) trace)"

text \<open>
  The handler after attempt \<open>k\<close> comes to the end of its sleep: the product can be
  computed, it is finite, and \<open>time.sleep\<close> returns for it.
\<close>

definition sleeps :: "sleeper \<Rightarrow> real \<Rightarrow> nat \<Rightarrow> bool" where
  "sleeps sleep base_delay k =
     (k < 1024 \<and> \<bar>base_delay * 2 ^ k\<bar> \<le> float_max \<and> sleep (base_delay * 2 ^ k) = None)"

section \<open>Equality and membership of JSON values in Python\<close>

text \<open>
  \<open>py_eq a b\<close> is \<open>a == b\<close>: two dictionaries are equal when they have the same keys with
  equal values, in any order, and \<open>True\<close> and \<open>False\<close> are equal to 1 and 0. \<open>py_in x xs\<close>
  is \<open>x in xs\<close> for a list: some element is the object \<open>x\<close> itself or is equal to it.
\<close>

fun py_eq :: "json \<Rightarrow> json \<Rightarrow> bool"
  and py_eq_list :: "json list \<Rightarrow> json list \<Rightarrow> bool"
  and py_eq_items :: "(string \<times> json) list \<Rightarrow> (string \<times> json) list \<Rightarrow> bool"
where
  "py_eq JNull b = (b = JNull)"
| "py_eq (JBool x) b =
     (case b of JBool y \<Rightarrow> x = y | JNum n \<Rightarrow> n = (if x then 1 else 0) | _ \<Rightarrow> False)"
| "py_eq (JNum m) b =
     (case b of JNum n \<Rightarrow> m = n | JBool y \<Rightarrow> m = (if y then 1 else 0) | _ \<Rightarrow> False)"
| "py_eq (JStr s) b = (b = JStr s)"
| "py_eq (JArr xs) b = (case b of JArr ys \<Rightarrow> py_eq_list xs ys | _ \<Rightarrow> False)"
| "py_eq (JObj d) b =
     (case b of JObj d' \<Rightarrow> length d = length d' \<and> py_eq_items d d' | _ \<Rightarrow> False)"
| "py_eq_list [] ys = (ys = [])"
| "py_eq_list (x # xs) ys =
     (case ys of [] \<Rightarrow> False | y # ys' \<Rightarrow> py_eq x y \<and> py_eq_list xs ys')"
| "py_eq_items [] d' = True"
| "py_eq_items ((k, v) # d) d' =
     ((case map_of d' k of None \<Rightarrow> False | Some w \<Rightarrow> py_eq v w) \<and> py_eq_items d d')"

definition py_in :: "json \<Rightarrow> json list \<Rightarrow> bool" where
  "py_in x xs = list_ex (\<lambda>y. y = x \<or> py_eq y x) xs"

section \<open>The aggregate: \<open>KnowledgeExtractor\<close>\<close>

text \<open>
  A chunk is the dictionary that the code reader makes, with the keys \<open>file\<close> (the
  field \<open>chunk_file\<close>), \<open>chunk_index\<close> and \<open>chunk\<close>. The report (\<open>knowledge\<close> in the source) has the five keys
  below (\<open>notes_of\<close> for the key \<open>notes\<close>); its lists hold JSON values, as they are written to the output file.
\<close>

record code_chunk =
  chunk_file :: string
  chunk_index :: int
  chunk :: string

record knowledge =
  project_info :: json
  overview :: "json list"
  methods :: "json list"
  complexity :: "json list"
  notes_of :: "json list"

text \<open>
  Exceptions that the interpreter raises inside the extractor leave it uncaught; only
  their class is modelled.
\<close>

definition type_error :: exn where
  "type_error = Exn ''TypeError'' []"

definition attribute_error :: exn where
  "attribute_error = Exn ''AttributeError'' []"

text \<open>What \<open>for method in v\<close> runs over, for a JSON value \<open>v\<close>.\<close>

fun py_iter :: "json \<Rightarrow> exn + json list" where
  "py_iter (JArr xs) = Inr xs"
| "py_iter (JObj d) = Inr (map (\<lambda>kv. JStr (fst kv)) d)"
| "py_iter (JStr s) = Inr (map (\<lambda>c. JStr [c]) s)"
| "py_iter JNull = Inl type_error"
| "py_iter (JBool b) = Inl type_error"
| "py_iter (JNum n) = Inl type_error"

definition named_keys :: "string list" where
  "named_keys = [''overview'', ''methods'', ''complexity'', ''notes'']"

text \<open>
  A result that is not a dictionary ends both extractors with an exception: the tests
  \<open>'overview' in result\<close> raise \<open>TypeError\<close> for a value that is no container; for a list
  or a string that holds one of the four names, the subscript \<open>result['...']\<close> raises
  \<open>TypeError\<close>; and otherwise \<open>result.get\<close> raises \<open>AttributeError\<close>.
\<close>

fun non_dict_fault :: "json \<Rightarrow> exn" where
  "non_dict_fault (JArr xs) =
     (if list_ex (\<lambda>k. py_in (JStr k) xs) named_keys then type_error else attribute_error)"
| "non_dict_fault (JStr s) =
     (if list_ex (\<lambda>k. str_in k s) named_keys then type_error else attribute_error)"
| "non_dict_fault v = type_error"

text \<open>\<open>result.get('raw_response', result.get('error', 'Unknown LLM response'))\<close>\<close>

definition fallback_notes :: "(string \<times> json) list \<Rightarrow> json" where
  "fallback_notes result =
     (case map_of result ''raw_response'' of
        Some v \<Rightarrow> v
      | None \<Rightarrow> (case map_of result ''error'' of
                   Some v \<Rightarrow> v
                 | None \<Rightarrow> JStr ''Unknown LLM response''))"

definition llm_error_text :: "exn \<Rightarrow> json" where
  "llm_error_text e = JStr (''LLM error: '' @ exn_class e @ '': '' @ exn_msg e)"

subsection \<open>The synchronous extractor\<close>

definition tagged :: "code_chunk \<Rightarrow> string \<Rightarrow> json \<Rightarrow> json" where
  "tagged chunk_info key v =
     JObj [(''file'', JStr (chunk_file chunk_info)), (''chunk_index'', JNum (chunk_index chunk_info)),
           (key, v)]"

text \<open>The loop over \<open>result['methods']\<close>, with its test \<open>method not in knowledge['methods']\<close>.\<close>

fun add_methods :: "json list \<Rightarrow> json list \<Rightarrow> json list" where
  "add_methods known [] = known"
| "add_methods known (method # rest) =
     add_methods (if py_in method known then known else known @ [method]) rest"

text \<open>The body of the loop for a future that returned \<open>result\<close>.\<close>

definition collect :: "knowledge \<Rightarrow> code_chunk \<Rightarrow> json \<Rightarrow> exn + knowledge" where
  "collect k chunk_info result =
     (case result of
        JObj d \<Rightarrow>
          if map_of d ''overview'' \<noteq> None \<or> map_of d ''methods'' \<noteq> None
             \<or> map_of d ''complexity'' \<noteq> None \<or> map_of d ''notes'' \<noteq> None
          then (let k1 = (case map_of d ''overview'' of
                            None \<Rightarrow> k
                          | Some v \<Rightarrow> k\<lparr>overview := overview k @ [tagged chunk_info ''overview'' v]\<rparr>)
                in case (case map_of d ''methods'' of
                           None \<Rightarrow> Inr []
                         | Some v \<Rightarrow> py_iter v) of
                     Inl e \<Rightarrow> Inl e
                   | Inr ms \<Rightarrow>
                       (let k2 = k1\<lparr>methods := add_methods (methods k1) ms\<rparr>;
                            k3 = (case map_of d ''complexity'' of
                                    None \<Rightarrow> k2
                                  | Some v \<Rightarrow>
                                      k2\<lparr>complexity := complexity k2 @ [tagged chunk_info ''complexity'' v]\<rparr>);
                            k4 = (case map_of d ''notes'' of
                                    None \<Rightarrow> k3
                                  | Some v \<Rightarrow> k3\<lparr>notes_of := notes_of k3 @ [tagged chunk_info ''notes'' v]\<rparr>)
                        in Inr k4))
          else Inr (k\<lparr>notes_of := notes_of k @ [tagged chunk_info ''notes'' (fallback_notes d)]\<rparr>)
      | _ \<Rightarrow> Inl (non_dict_fault result))"

text \<open>
  A future is a chunk with what its analysis came to: an exception (\<open>future.result()\<close>
  raises it, and the handler turns it into a note) or the returned result.
\<close>

type_synonym future = "code_chunk \<times> (exn + json)"

definition sync_step :: "knowledge \<Rightarrow> future \<Rightarrow> exn + knowledge" where
  "sync_step k fut =
     (case snd fut of
        Inl e \<Rightarrow> Inr (k\<lparr>notes_of := notes_of k @ [tagged (fst fut) ''notes'' (llm_error_text e)]\<rparr>)
      | Inr result \<Rightarrow> collect k (fst fut) result)"

fun sync_loop :: "knowledge \<Rightarrow> future list \<Rightarrow> exn + knowledge" where
  "sync_loop k [] = Inr k"
| "sync_loop k (fut # futs) =
     (case sync_step k fut of
        Inl e \<Rightarrow> Inl e
      | Inr k' \<Rightarrow> sync_loop k' futs)"

subsection \<open>The environment of an extraction\<close>

text \<open>
  What the extractor takes from outside: the parser, the transport, \<open>time.sleep\<close>, the
  README file under the target directory and the construction of the vector store, which
  can raise.
  A call of the transport is the one for the README or the \<open>k\<close>-th call of the analysis of
  the chunk at position \<open>i\<close>.
\<close>

datatype call = Readme_call | Chunk_call nat nat

datatype readme_file = No_readme | Unreadable exn | Readme string

record env =
  env_parser :: parser
  env_llm :: "call \<Rightarrow> string \<Rightarrow> exn + string"
  env_sleep :: sleeper
  env_readme :: readme_file
  env_faiss :: "code_chunk list \<Rightarrow> exn option"

definition readme_prompt :: "string \<Rightarrow> string" where
  "readme_prompt readme_content =
     ''You are an expert software architect. Summarize the following README.md for onboarding: ''
     @ ''Return a JSON object with keys: 'readme_summary', 'main_features', 'usage'.\<newline>README:\<newline>''
     @ readme_content"

text \<open>The body of the \<open>try\<close> of the README step, and the step with its handler.\<close>

definition readme_try :: "env \<Rightarrow> exn + json" where
  "readme_try env =
     (case env_readme env of
        No_readme \<Rightarrow> Inr (JObj [])
      | Unreadable e \<Rightarrow> Inl e
      | Readme readme_content \<Rightarrow>
          (case env_llm env Readme_call (readme_prompt readme_content) of
             Inl e \<Rightarrow> Inl e
           | Inr content \<Rightarrow> env_parser env content))"

definition project_summary :: "env \<Rightarrow> exn + json" where
  "project_summary env =
     (case readme_try env of
        Inl e \<Rightarrow> Inr (JObj [(''readme_error'', JStr (exn_msg e))])
      | Inr info \<Rightarrow> Inr info)"

definition empty_knowledge :: "json \<Rightarrow> knowledge" where
  "empty_knowledge info =
     \<lparr>project_info = info, overview = [], methods = [], complexity = [], notes_of = []\<rparr>"

text \<open>The analysis of the chunk at position \<open>i\<close>, with the default parameters.\<close>

definition chunk_outcome :: "env \<Rightarrow> nat \<Rightarrow> code_chunk \<Rightarrow> exn + json" where
  "chunk_outcome env i chunk_info =
     fst (analyze_code_chunk (env_parser env) (\<lambda>k. env_llm env (Chunk_call i k)) (env_sleep env)
            (chunk chunk_info) default_max_retries default_base_delay)"

definition submit_all :: "env \<Rightarrow> code_chunk list \<Rightarrow> future list" where
  "submit_all env code_chunks =
     map (\<lambda>(i, chunk_info). (chunk_info, chunk_outcome env i chunk_info)) (enumerate 0 code_chunks)"

text \<open>
  \<open>as_completed\<close> hands each future over once, in the order in which they complete. The
  order is the scheduler's: \<open>order\<close> lists the positions of the futures as they complete.
  A list that is no arrangement of the positions stands for the order of submission.
\<close>

definition as_completed :: "nat list \<Rightarrow> 'a list \<Rightarrow> 'a list" where
  "as_completed order futs =
     (if sort order = [0..<length futs] then map (\<lambda>i. futs ! i) order else futs)"

text \<open>\<open>ThreadPoolExecutor\<close> refuses a number of workers that is not positive.\<close>

definition pool_error :: exn where
  "pool_error = Exn ''ValueError'' ''max_workers must be greater than 0''"

text \<open>\<open>KnowledgeExtractor.extract\<close>\<close>

definition extract_sync :: "env \<Rightarrow> int \<Rightarrow> nat list \<Rightarrow> code_chunk list \<Rightarrow> exn + knowledge" where
  "extract_sync env max_workers order code_chunks =
     (case env_faiss env code_chunks of
        Some e \<Rightarrow> Inl e
      | None \<Rightarrow>
          (case project_summary env of
             Inl e \<Rightarrow> Inl e
           | Inr info \<Rightarrow>
               if max_workers \<le> 0 then Inl pool_error
               else sync_loop (empty_knowledge info)
                      (as_completed order (submit_all env code_chunks))))"

subsection \<open>The asynchronous extractor\<close>

definition typed :: "code_chunk \<Rightarrow> string \<Rightarrow> json \<Rightarrow> json" where
  "typed chunk_info key v =
     JObj [(''type'', JStr key), (''file'', JStr (chunk_file chunk_info)),
           (''chunk_index'', JNum (chunk_index chunk_info)), (key, v)]"

text \<open>\<open>{'type': 'methods', **method}\<close>: the keys of \<open>method\<close> are set one after the other.\<close>

definition method_item :: "(string \<times> json) list \<Rightarrow> json" where
  "method_item method = JObj (foldl (\<lambda>d kv. dict_set d (fst kv) (snd kv)) [(''type'', JStr ''methods'')] method)"

fun method_items :: "json list \<Rightarrow> exn + json list" where
  "method_items [] = Inr []"
| "method_items (method # rest) =
     (case method of
        JObj d \<Rightarrow> (case method_items rest of
                     Inl e \<Rightarrow> Inl e
                   | Inr items \<Rightarrow> Inr (method_item d # items))
      | _ \<Rightarrow> Inl type_error)"

definition result_items :: "code_chunk \<Rightarrow> json \<Rightarrow> exn + json list" where
  "result_items chunk_info result =
     (case result of
        JObj d \<Rightarrow>
          (case (case map_of d ''methods'' of
                   None \<Rightarrow> Inr []
                 | Some v \<Rightarrow> (case py_iter v of Inl e \<Rightarrow> Inl e | Inr ms \<Rightarrow> method_items ms)) of
             Inl e \<Rightarrow> Inl e
           | Inr ms \<Rightarrow>
               (let out = (case map_of d ''overview'' of
                             None \<Rightarrow> []
                           | Some v \<Rightarrow> [typed chunk_info ''overview'' v])
                          @ ms
                          @ (case map_of d ''complexity'' of
                               None \<Rightarrow> []
                             | Some v \<Rightarrow> [typed chunk_info ''complexity'' v])
                          @ (case map_of d ''notes'' of
                               None \<Rightarrow> []
                             | Some v \<Rightarrow> [typed chunk_info ''notes'' v])
                in Inr (if out = [] then [typed chunk_info ''notes'' (fallback_notes d)] else out)))
      | _ \<Rightarrow> Inl (non_dict_fault result))"

definition process_chunk_with_limit :: "code_chunk \<Rightarrow> (exn + json) \<Rightarrow> exn + json list" where
  "process_chunk_with_limit chunk_info outcome =
     (case outcome of
        Inl e \<Rightarrow> Inr [typed chunk_info ''notes'' (llm_error_text e)]
      | Inr result \<Rightarrow> result_items chunk_info result)"

text \<open>
  The loop over the gathered items. An item is a dictionary made above, so it has the key
  \<open>type\<close>; an item whose type is none of the four is passed over.
\<close>

definition place_item :: "knowledge \<Rightarrow> json \<Rightarrow> knowledge" where
  "place_item k item =
     (case item of
        JObj d \<Rightarrow>
          (case map_of d ''type'' of
             Some t \<Rightarrow>
               if t = JStr ''overview'' then k\<lparr>overview := overview k @ [item]\<rparr>
               else if t = JStr ''methods'' then k\<lparr>methods := methods k @ [item]\<rparr>
               else if t = JStr ''complexity'' then k\<lparr>complexity := complexity k @ [item]\<rparr>
               else if t = JStr ''notes'' then k\<lparr>notes_of := notes_of k @ [item]\<rparr>
               else k
           | None \<Rightarrow> k)
      | _ \<Rightarrow> k)"

text \<open>
  The analysis of the chunk at position \<open>i\<close> in the asynchronous extractor, with the
  default parameters. With them every sleep is finite, so the analysis ends (lemma
  \<open>analyze_code_chunk_async_ends\<close> below) and has a result.
\<close>

definition chunk_outcome_async :: "env \<Rightarrow> nat \<Rightarrow> code_chunk \<Rightarrow> exn + json" where
  "chunk_outcome_async env i chunk_info =
     fst (the (analyze_code_chunk_async (env_parser env) (\<lambda>k. env_llm env (Chunk_call i k))
                 (chunk chunk_info) default_max_retries default_base_delay))"

definition tasks :: "env \<Rightarrow> code_chunk list \<Rightarrow> (exn + json list) list" where
  "tasks env code_chunks =
     map (\<lambda>(i, chunk_info). process_chunk_with_limit chunk_info (chunk_outcome_async env i chunk_info))
       (enumerate 0 code_chunks)"

text \<open>\<open>BoundedSemaphore\<close> refuses a negative value; \<open>self.max_workers or 2\<close> is its value.\<close>

definition semaphore_error :: exn where
  "semaphore_error = Exn ''ValueError'' ''Semaphore initial value must be >= 0''"

text \<open>
  \<open>asyncio.gather\<close> returns the results in the order of the tasks, whatever the order in
  which they complete; when tasks raise, it raises the exception of the one that
  completes first.
\<close>

definition gather :: "nat list \<Rightarrow> (exn + 'a) list \<Rightarrow> exn + 'a list" where
  "gather order ts =
     (case find isl (as_completed order ts) of
        Some t \<Rightarrow> Inl (projl t)
      | None \<Rightarrow> Inr (map projr ts))"

definition extract_async :: "env \<Rightarrow> int \<Rightarrow> nat list \<Rightarrow> code_chunk list \<Rightarrow> exn + knowledge" where
  "extract_async env max_workers order code_chunks =
     (case env_faiss env code_chunks of
        Some e \<Rightarrow> Inl e
      | None \<Rightarrow>
          (case project_summary env of
             Inl e \<Rightarrow> Inl e
           | Inr info \<Rightarrow>
               if (if max_workers = 0 then 2 else max_workers) < 0 then Inl semaphore_error
               else (case gather order (tasks env code_chunks) of
                       Inl e \<Rightarrow> Inl e
                     | Inr results \<Rightarrow> Inr (foldl place_item (empty_knowledge info) (concat results)))))"

subsection \<open>The entry point: \<open>main_async\<close>\<close>

text \<open>
  The two settings come from the process environment and may be unset or empty. Cloning,
  reading the chunks and writing the output file are input and output; each is given by
  its result. The extractor is made with its default, one worker.
\<close>

datatype main_result = No_chunks | Saved knowledge

definition config_error :: exn where
  "config_error = Exn ''ValueError'' ''REPO_URL and TARGET_DIR must be set in the .env file.''"

definition unset :: "string option \<Rightarrow> bool" where
  "unset v = (v = None \<or> v = Some [])"

definition main_async ::
  "string option \<Rightarrow> string option \<Rightarrow> (exn + string) \<Rightarrow> (string \<Rightarrow> exn + code_chunk list)
     \<Rightarrow> env \<Rightarrow> nat list \<Rightarrow> (knowledge \<Rightarrow> exn option) \<Rightarrow> exn + main_result" where
  "main_async repo_url target_dir clone read_and_chunk_codebase env order json_dump =
     (if unset repo_url \<or> unset target_dir then Inl config_error
      else (case clone of
              Inl e \<Rightarrow> Inl e
            | Inr codebase_path \<Rightarrow>
                (case read_and_chunk_codebase codebase_path of
                   Inl e \<Rightarrow> Inl e
                 | Inr code_chunks \<Rightarrow>
                     if code_chunks = [] then Inr No_chunks
                     else (case extract_async env 1 order code_chunks of
                             Inl e \<Rightarrow> Inl e
                           | Inr extracted_knowledge \<Rightarrow>
                               (case json_dump extracted_knowledge of
                                  Some e \<Rightarrow> Inl e
                                | None \<Rightarrow> Inr (Saved extracted_knowledge))))))"

subsection \<open>Which chunks an aggregate names\<close>

text \<open>
  An entry of \<open>overview\<close>, \<open>complexity\<close> or \<open>notes\<close> names its chunk by the keys \<open>file\<close> and
  \<open>chunk_index\<close>.
\<close>

definition chunk_id :: "code_chunk \<Rightarrow> string \<times> int" where
  "chunk_id chunk_info = (chunk_file chunk_info, chunk_index chunk_info)"

definition entry_chunk :: "json \<Rightarrow> (string \<times> int) option" where
  "entry_chunk entry =
     (case entry of
        JObj d \<Rightarrow>
          (case map_of d ''file'' of
             Some (JStr f) \<Rightarrow>
               (case map_of d ''chunk_index'' of
                  Some (JNum i) \<Rightarrow> Some (f, i)
                | _ \<Rightarrow> None)
           | _ \<Rightarrow> None)
      | _ \<Rightarrow> None)"

definition contributions :: "knowledge \<Rightarrow> (string \<times> int) list" where
  "contributions k = List.map_filter entry_chunk (overview k @ complexity k @ notes_of k)"

text \<open>
  The entries that count for a chunk are the ones in \<open>overview\<close>, \<open>complexity\<close> and
  \<open>notes\<close>. In the asynchronous extractor an item goes to the list that its \<open>type\<close>
  names; \<open>counted\<close> holds for the items that go to one of these three.
\<close>

definition counted :: "json \<Rightarrow> bool" where
  "counted item =
     (case item of
        JObj d \<Rightarrow> map_of d ''type'' \<in> {Some (JStr ''overview''), Some (JStr ''complexity''),
                                      Some (JStr ''notes'')}
      | _ \<Rightarrow> False)"

text \<open>
  A chunk is named by the aggregate when an entry of \<open>overview\<close>, \<open>complexity\<close> or
  \<open>notes\<close> names it. Which chunks are named depends on the outcomes of their analyses.

  A method fact is an object without a key \<open>type\<close> of its own. \<open>result_methods\<close> is what
  the loop over the methods of a result runs through. An outcome is well formed for the
  synchronous extractor when it is an exception, or a dictionary whose \<open>methods\<close>, if
  present, can be iterated; for the asynchronous extractor the methods must moreover be
  method facts. (Other outcomes make the extractor raise, or put an entry that belongs
  to no chunk, or to another one, into the aggregate.)

  The synchronous extractor names the chunk of an outcome that is an exception, or that
  has one of the keys \<open>overview\<close>, \<open>complexity\<close>, \<open>notes\<close>, or that lacks the key
  \<open>methods\<close> (then the fallback note is made). The asynchronous extractor makes the
  fallback note when it has produced no item, so it also names the chunk of a result
  whose \<open>methods\<close> is empty.
\<close>

definition method_fact :: "json \<Rightarrow> bool" where
  "method_fact m = (case m of JObj d \<Rightarrow> map_of d ''type'' = None | _ \<Rightarrow> False)"

definition result_methods :: "(string \<times> json) list \<Rightarrow> exn + json list" where
  "result_methods d =
     (case map_of d ''methods'' of
        None \<Rightarrow> Inr []
      | Some v \<Rightarrow> py_iter v)"

definition has_entry_key :: "(string \<times> json) list \<Rightarrow> bool" where
  "has_entry_key d =
     (map_of d ''overview'' \<noteq> None \<or> map_of d ''complexity'' \<noteq> None \<or> map_of d ''notes'' \<noteq> None)"

definition well_formed_sync :: "exn + json \<Rightarrow> bool" where
  "well_formed_sync outcome =
     (case outcome of
        Inl e \<Rightarrow> True
      | Inr result \<Rightarrow>
          (case result of
             JObj d \<Rightarrow> (case result_methods d of Inl e \<Rightarrow> False | Inr ms \<Rightarrow> True)
           | _ \<Rightarrow> False))"

definition well_formed_async :: "exn + json \<Rightarrow> bool" where
  "well_formed_async outcome =
     (case outcome of
        Inl e \<Rightarrow> True
      | Inr result \<Rightarrow>
          (case result of
             JObj d \<Rightarrow> (case result_methods d of Inl e \<Rightarrow> False | Inr ms \<Rightarrow> list_all method_fact ms)
           | _ \<Rightarrow> False))"

definition names_sync :: "exn + json \<Rightarrow> bool" where
  "names_sync outcome =
     (case outcome of
        Inl e \<Rightarrow> True
      | Inr result \<Rightarrow>
          (case result of
             JObj d \<Rightarrow> has_entry_key d \<or> map_of d ''methods'' = None
           | _ \<Rightarrow> False))"

definition names_async :: "exn + json \<Rightarrow> bool" where
  "names_async outcome =
     (case outcome of
        Inl e \<Rightarrow> True
      | Inr result \<Rightarrow>
          (case result of
             JObj d \<Rightarrow> has_entry_key d \<or> result_methods d = Inr []
           | _ \<Rightarrow> False))"

subsection \<open>Comparing two aggregates\<close>

text \<open>
  Two aggregates have the same entries when they agree on \<open>project_info\<close> and, up to the
  order, on \<open>overview\<close>, \<open>complexity\<close> and \<open>notes\<close>: the same entries with the same
  multiplicities. They have the same content when this also holds of \<open>methods\<close>. Two
  runs have the same outcome when both raise or both return, with aggregates related by
  the given relation.
\<close>

definition same_entries :: "knowledge \<Rightarrow> knowledge \<Rightarrow> bool" where
  "same_entries k k' =
     (project_info k = project_info k'
      \<and> mset (overview k) = mset (overview k')
      \<and> mset (complexity k) = mset (complexity k')
      \<and> mset (notes_of k) = mset (notes_of k'))"

definition same_content :: "knowledge \<Rightarrow> knowledge \<Rightarrow> bool" where
  "same_content k k' = (same_entries k k' \<and> mset (methods k) = mset (methods k'))"

definition same_outcome ::
  "(knowledge \<Rightarrow> knowledge \<Rightarrow> bool) \<Rightarrow> exn + knowledge \<Rightarrow> exn + knowledge \<Rightarrow> bool" where
  "same_outcome R r r' =
     (case r of
        Inl e \<Rightarrow> isl r'
      | Inr k \<Rightarrow> (case r' of Inl e' \<Rightarrow> False | Inr k' \<Rightarrow> R k k'))"

text \<open>
  What one future adds, taken apart: the step on the empty aggregate, and the methods that
  the loop over \<open>result['methods']\<close> runs through.
\<close>

definition delta :: "future \<Rightarrow> exn + knowledge" where
  "delta fut = sync_step (empty_knowledge JNull) fut"

definition fut_methods :: "future \<Rightarrow> json list" where
  "fut_methods fut =
     (case snd fut of
        Inl e \<Rightarrow> []
      | Inr result \<Rightarrow>
          (case result of
             JObj d \<Rightarrow>
               (case map_of d ''methods'' of
                  None \<Rightarrow> []
                | Some v \<Rightarrow> (case py_iter v of Inl e \<Rightarrow> [] | Inr ms \<Rightarrow> ms))
           | _ \<Rightarrow> []))"

text \<open>
  The methods of all the results of an extraction, and the lists on which the equality
  of Python, which the test \<open>method not in knowledge['methods']\<close> uses, holds between
  identical values only. (It holds between \<open>True\<close> and \<open>1\<close>, and between two dictionaries
  that differ in the order of their keys.)
\<close>

definition all_methods :: "env \<Rightarrow> code_chunk list \<Rightarrow> json list" where
  "all_methods env code_chunks = concat (map fut_methods (submit_all env code_chunks))"

definition plain_equality :: "json list \<Rightarrow> bool" where
  "plain_equality ms = list_all (\<lambda>m. list_all (\<lambda>m'. py_eq m m' \<longrightarrow> m = m') ms) ms"

text \<open>
  The aggregate after the futures \<open>futs\<close> have been taken in, when no step raises: every
  list grows by what the futures add, in their order.
\<close>

definition grown :: "knowledge \<Rightarrow> future list \<Rightarrow> knowledge" where
  "grown k futs =
     k\<lparr>overview := overview k @ concat (map (\<lambda>f. overview (projr (delta f))) futs),
       methods := add_methods (methods k) (concat (map fut_methods futs)),
       complexity := complexity k @ concat (map (\<lambda>f. complexity (projr (delta f))) futs),
       notes_of := notes_of k @ concat (map (\<lambda>f. notes_of (projr (delta f))) futs)\<rparr>"

text \<open>The chunks that the counted items of a list name.\<close>

definition counted_ids :: "json list \<Rightarrow> (string \<times> int) list" where
  "counted_ids items = List.map_filter entry_chunk (filter counted items)"

section \<open>Example inputs\<close>

text \<open>Transports and chunks at which the theorems below are evaluated.\<close>

definition connection_refused :: transport where
  "connection_refused k prompt = Inl (Exn ''APIConnectionError'' ''Connection error.'')"

definition limited_then_refused :: transport where
  "limited_then_refused k prompt =
     (if k = 0 then Inl (Exn ''RateLimitError'' ''Error code: 429'')
      else Inl (Exn ''APIConnectionError'' ''Connection error.''))"

definition always_limited :: transport where
  "always_limited k prompt = Inl (Exn ''RateLimitError'' ''Error code: 429'')"

definition answers :: "string \<Rightarrow> transport" where
  "answers raw_content k prompt = Inr raw_content"

definition limited_then_answers :: "string \<Rightarrow> transport" where
  "limited_then_answers raw_content k prompt =
     (if k = 0 then Inl (Exn ''RateLimitError'' ''Error code: 429'') else Inr raw_content)"

definition chunk_a :: code_chunk where
  "chunk_a = \<lparr>chunk_file = ''a.py'', chunk_index = 0, chunk = ''def f(): pass''\<rparr>"

definition chunk_b :: code_chunk where
  "chunk_b = \<lparr>chunk_file = ''b.py'', chunk_index = 1, chunk = ''def g(): pass''\<rparr>"

definition env_plain :: env where
  "env_plain =
     \<lparr>env_parser = simple_json_output_parser,
      env_llm = (\<lambda>c prompt. Inr ''{}''),
      env_sleep = time_sleep,
      env_readme = No_readme,
      env_faiss = (\<lambda>code_chunks. None)\<rparr>"

definition env_readme_timeout :: env where
  "env_readme_timeout =
     \<lparr>env_parser = simple_json_output_parser,
      env_llm = (\<lambda>c prompt. Inl (Exn ''TimeoutError'' [])),
      env_sleep = time_sleep,
      env_readme = Readme ''# Project'',
      env_faiss = (\<lambda>code_chunks. None)\<rparr>"

definition env_readme_refused :: env where
  "env_readme_refused =
     \<lparr>env_parser = simple_json_output_parser,
      env_llm = (\<lambda>c prompt. Inl (Exn ''APIConnectionError'' ''Connection error.'')),
      env_sleep = time_sleep,
      env_readme = Readme ''# Project'',
      env_faiss = (\<lambda>code_chunks. None)\<rparr>"

definition no_code_files :: "string \<Rightarrow> exn + code_chunk list" where
  "no_code_files codebase_path = Inr []"

definition dump_ok :: "knowledge \<Rightarrow> exn option" where
  "dump_ok k = None"

definition one_method :: string where
  \<open>one_method = ''{"methods":[{"name":"f","signature":"f()","description":"d"}]}''\<close>

definition no_methods :: string where
  \<open>no_methods = ''{"methods":[]}''\<close>

definition full_answer :: string where
  \<open>full_answer = ''{"overview":"x","methods":[{"name":"f"}],"complexity":"low","notes":""}''\<close>

definition env_answering :: "string \<Rightarrow> env" where
  "env_answering raw_content =
     \<lparr>env_parser = simple_json_output_parser,
      env_llm = (\<lambda>c prompt. Inr raw_content),
      env_sleep = time_sleep,
      env_readme = No_readme,
      env_faiss = (\<lambda>code_chunks. None)\<rparr>"

text \<open>The first chunk is answered in full, every other one with a method and nothing else.\<close>

definition env_full_then_methods :: env where
  "env_full_then_methods =
     \<lparr>env_parser = simple_json_output_parser,
      env_llm = (\<lambda>c prompt. if c = Chunk_call 0 0 then Inr full_answer else Inr one_method),
      env_sleep = time_sleep,
      env_readme = No_readme,
      env_faiss = (\<lambda>code_chunks. None)\<rparr>"

text \<open>
  A stub that answers by the prompt alone: the methods \<open>[true]\<close> for the code of
  \<open>chunk_a\<close> and \<open>[1]\<close> for any other.
\<close>

definition methods_true :: string where
  \<open>methods_true = ''{"methods":[true]}''\<close>

definition methods_one :: string where
  \<open>methods_one = ''{"methods":[1]}''\<close>

definition stub_true_or_one :: "string \<Rightarrow> exn + string" where
  "stub_true_or_one prompt =
     (if prompt = build_prompt (chunk chunk_a) then Inr methods_true else Inr methods_one)"

definition env_true_or_one :: env where
  "env_true_or_one =
     \<lparr>env_parser = simple_json_output_parser,
      env_llm = (\<lambda>c. stub_true_or_one),
      env_sleep = time_sleep,
      env_readme = No_readme,
      env_faiss = (\<lambda>code_chunks. None)\<rparr>"

text \<open>The first chunk is answered in full; every other call is refused.\<close>

definition env_mixed :: env where
  "env_mixed =
     \<lparr>env_parser = simple_json_output_parser,
      env_llm = (\<lambda>c prompt. if c = Chunk_call 0 0 then Inr full_answer
                             else Inl (Exn ''APIConnectionError'' ''Connection error.'')),
      env_sleep = time_sleep,
      env_readme = No_readme,
      env_faiss = (\<lambda>code_chunks. None)\<rparr>"

section \<open>Properties of the normalisation\<close>

lemma str_in_sublist: "str_in sub s = sublist sub s"
  by (induction s) (simp_all add: sublist_Cons_right)

lemma drop_before_brace_none: "CHR ''{'' \<notin> set s \<Longrightarrow> drop_before_brace s = []"
  by (auto simp: drop_before_brace_def)

lemma drop_before_brace_first:
  "CHR ''{'' \<notin> set pre \<Longrightarrow> drop_before_brace (pre @ CHR ''{'' # rest) = CHR ''{'' # rest"
  by (auto simp: drop_before_brace_def dropWhile_append3)

lemma drop_before_brace_subset: "set (drop_before_brace s) \<subseteq> set s"
  by (simp add: drop_before_brace_def set_dropWhileD subsetI)

lemma drop_after_brace_none: "CHR ''}'' \<notin> set s \<Longrightarrow> drop_after_brace s = []"
  by (auto simp: drop_after_brace_def)

lemma drop_after_brace_last:
  "CHR ''}'' \<notin> set post \<Longrightarrow> drop_after_brace (x @ CHR ''}'' # post) = x @ [CHR ''}'']"
proof -
  assume a: "CHR ''}'' \<notin> set post"
  have "rev (x @ CHR ''}'' # post) = rev post @ CHR ''}'' # rev x" by simp
  moreover from a have "dropWhile (\<lambda>c. c \<noteq> CHR ''}'') (rev post @ CHR ''}'' # rev x) = CHR ''}'' # rev x"
    by (auto simp: dropWhile_append3)
  ultimately show ?thesis by (simp add: drop_after_brace_def)
qed

lemma strip_Nil: "strip [] = []"
  by (simp add: strip_def)

lemma strip_id: "s \<noteq> [] \<Longrightarrow> \<not> isspace (hd s) \<Longrightarrow> \<not> isspace (last s) \<Longrightarrow> strip s = s"
proof -
  assume a: "s \<noteq> []" "\<not> isspace (hd s)" "\<not> isspace (last s)"
  then have 1: "dropWhile isspace s = s" by (simp add: dropWhile_eq_self_iff)
  from a have "dropWhile isspace (rev s) = rev s" by (simp add: dropWhile_eq_self_iff hd_rev)
  with 1 show ?thesis by (simp add: strip_def)
qed

lemma sub_trailing_commas_last:
  "s \<noteq> [] \<Longrightarrow> last s = CHR ''}'' \<Longrightarrow>
     sub_trailing_commas s \<noteq> [] \<and> last (sub_trailing_commas s) = CHR ''}''"
proof (induction s rule: sub_trailing_commas.induct)
  case 1
  then show ?case by simp
next
  case (2 c cs)
  note IH = "2.IH" and prems = "2.prems"
  show ?case
  proof (cases "cs = []")
    case True
    with prems show ?thesis by simp
  next
    case False
    with prems have lcs: "last cs = CHR ''}''" by simp
    show ?thesis
    proof (cases "c = CHR '',''")
      case nc: False
      from IH(4)[OF nc False lcs] nc show ?thesis by simp
    next
      case c: True
      show ?thesis
      proof (cases "dropWhile isspace cs")
        case Nil
        from IH(1)[OF c Nil False lcs] show ?thesis by (simp add: c Nil)
      next
        case (Cons d ds)
        have "cs = takeWhile isspace cs @ d # ds"
          using Cons by (metis takeWhile_dropWhile_id)
        then have lds: "last (d # ds) = CHR ''}''"
          using lcs by (metis last_appendR list.distinct(1))
        show ?thesis
        proof (cases "d = CHR ''}'' \<or> d = CHR '']''")
          case br: True
          show ?thesis
          proof (cases "ds = []")
            case True
            with lds have "d = CHR ''}''" by simp
            with True show ?thesis by (simp add: c Cons)
          next
            case dsne: False
            with lds have "last ds = CHR ''}''" by simp
            from IH(2)[OF c Cons br dsne this] br show ?thesis by (simp add: c Cons)
          qed
        next
          case nbr: False
          from IH(3)[OF c Cons nbr False lcs] nbr show ?thesis by (simp add: c Cons)
        qed
      qed
    qed
  qed
qed

lemma clean_json_string_between:
  assumes "CHR ''{'' \<notin> set pre" and "CHR ''}'' \<notin> set post"
  shows "clean_json_string (pre @ CHR ''{'' # mid @ CHR ''}'' # post)
           = sub_trailing_commas (CHR ''{'' # mid @ [CHR ''}''])"
proof -
  let ?body = "CHR ''{'' # mid @ [CHR ''}'']"
  have 1: "drop_before_brace (pre @ CHR ''{'' # mid @ CHR ''}'' # post) = CHR ''{'' # mid @ CHR ''}'' # post"
    using assms(1) by (rule drop_before_brace_first)
  have 2: "drop_after_brace (CHR ''{'' # mid @ CHR ''}'' # post) = ?body"
    using drop_after_brace_last[OF assms(2), of "CHR ''{'' # mid"] by simp
  have 3: "sub_trailing_commas ?body = CHR ''{'' # sub_trailing_commas (mid @ [CHR ''}''])"
    by simp
  have 4: "sub_trailing_commas ?body \<noteq> [] \<and> last (sub_trailing_commas ?body) = CHR ''}''"
    by (rule sub_trailing_commas_last) simp_all
  have "strip (sub_trailing_commas ?body) = sub_trailing_commas ?body"
  proof (rule strip_id)
    show "sub_trailing_commas ?body \<noteq> []" using 4 by simp
    show "\<not> isspace (hd (sub_trailing_commas ?body))" by (simp add: 3 isspace_def)
    show "\<not> isspace (last (sub_trailing_commas ?body))" using 4 by (simp add: isspace_def)
  qed
  with 1 2 show ?thesis by (simp add: clean_json_string_def)
qed

lemma clean_json_string_no_pair:
  assumes "CHR ''{'' \<notin> set s \<or> CHR ''}'' \<notin> set s"
  shows "clean_json_string s = []"
proof (cases "CHR ''{'' \<in> set s")
  case False
  then show ?thesis
    by (simp add: clean_json_string_def drop_before_brace_none drop_after_brace_def strip_Nil)
next
  case True
  with assms have "CHR ''}'' \<notin> set s" by simp
  then have "CHR ''}'' \<notin> set (drop_before_brace s)"
    using drop_before_brace_subset by blast
  then show ?thesis
    by (simp add: clean_json_string_def drop_after_brace_none strip_Nil)
qed

lemma sub_trailing_commas_split:
  "sub_trailing_commas (x @ CHR '','' # r) = sub_trailing_commas x @ sub_trailing_commas (CHR '','' # r)"
proof (induction x rule: sub_trailing_commas.induct)
  case 1
  then show ?case by simp
next
  case (2 c cs)
  note IH = "2.IH"
  let ?t = "CHR '','' # r"
  show ?case
  proof (cases "c = CHR '',''")
    case nc: False
    from IH(4)[OF nc] nc show ?thesis by simp
  next
    case c: True
    show ?thesis
    proof (cases "dropWhile isspace cs")
      case Nil
      then have "\<forall>a\<in>set cs. isspace a" by simp
      then have dw: "dropWhile isspace (cs @ ?t) = ?t"
        by (simp add: dropWhile_append isspace_def)
      from IH(1)[OF c Nil] show ?thesis by (simp add: c Nil dw)
    next
      case (Cons d ds)
      then obtain a where "a \<in> set cs" and "\<not> isspace a"
        by (metis dropWhile_eq_Nil_conv list.distinct(1))
      then have "dropWhile isspace (cs @ ?t) = dropWhile isspace cs @ ?t"
        by (rule dropWhile_append1)
      then have dw: "dropWhile isspace (cs @ ?t) = d # ds @ ?t"
        by (simp add: Cons)
      show ?thesis
      proof (cases "d = CHR ''}'' \<or> d = CHR '']''")
        case br: True
        from IH(2)[OF c Cons br] br show ?thesis by (simp add: c Cons dw)
      next
        case nbr: False
        from IH(3)[OF c Cons nbr] nbr show ?thesis by (simp add: c Cons dw)
      qed
    qed
  qed
qed

lemma sub_trailing_commas_match:
  assumes "\<forall>c\<in>set ws. isspace c" and "b = CHR ''}'' \<or> b = CHR '']''"
  shows "sub_trailing_commas (CHR '','' # ws @ b # y) = b # sub_trailing_commas y"
proof -
  have "\<not> isspace b" using assms(2) by (auto simp: isspace_def)
  then have "dropWhile isspace (ws @ b # y) = b # y"
    using assms(1) by (simp add: dropWhile_append)
  then show ?thesis using assms(2) by auto
qed

section \<open>Properties of the retry loop\<close>

declare analyze_loop.simps [simp del]

declare analyze_loop_async.simps [simp del]

lemma backoff_sleeps: "sleeps sleep bd a \<Longrightarrow> backoff sleep bd a = Inr (bd * 2 ^ a)"
  by (simp add: sleeps_def backoff_def Let_def)

lemma analyze_loop_exhausted:
  "\<not> int a < mr \<Longrightarrow>
     analyze_loop parse llm sleep code mr bd a tr = (Inr (rate_limit_exceeded mr), tr)"
  by (subst analyze_loop.simps) simp

lemma analyze_loop_parsed:
  "int a < mr \<Longrightarrow> try_body parse (llm a (build_prompt code)) = Inr v \<Longrightarrow>
     analyze_loop parse llm sleep code mr bd a tr = (Inr v, tr @ [Invoke (build_prompt code)])"
  by (subst analyze_loop.simps) (simp add: Let_def)

lemma analyze_loop_reraise:
  "int a < mr \<Longrightarrow> try_body parse (llm a (build_prompt code)) = Inl e \<Longrightarrow>
     \<not> is_rate_limit (exn_msg e) \<Longrightarrow>
     analyze_loop parse llm sleep code mr bd a tr = (Inl e, tr @ [Invoke (build_prompt code)])"
  by (subst analyze_loop.simps) (simp add: Let_def)

lemma analyze_loop_slept:
  "int a < mr \<Longrightarrow> try_body parse (llm a (build_prompt code)) = Inl e \<Longrightarrow>
     is_rate_limit (exn_msg e) \<Longrightarrow> backoff sleep bd a = Inr w \<Longrightarrow>
     analyze_loop parse llm sleep code mr bd a tr
       = analyze_loop parse llm sleep code mr bd (Suc a) (tr @ [Invoke (build_prompt code), Sleep w])"
  by (subst analyze_loop.simps) (simp add: Let_def)

lemma analyze_loop_retry:
  "int a < mr \<Longrightarrow> try_body parse (llm a (build_prompt code)) = Inl e \<Longrightarrow>
     is_rate_limit (exn_msg e) \<Longrightarrow> sleeps sleep bd a \<Longrightarrow>
     analyze_loop parse llm sleep code mr bd a tr
       = analyze_loop parse llm sleep code mr bd (Suc a) (tr @ retry_round code bd a)"
  by (simp add: analyze_loop_slept [where w = "bd * 2 ^ a"] backoff_sleeps retry_round_def)

lemma analyze_loop_backoff_raises:
  "int a < mr \<Longrightarrow> try_body parse (llm a (build_prompt code)) = Inl e \<Longrightarrow>
     is_rate_limit (exn_msg e) \<Longrightarrow> backoff sleep bd a = Inl err \<Longrightarrow>
     analyze_loop parse llm sleep code mr bd a tr = (Inl err, tr @ [Invoke (build_prompt code)])"
  by (subst analyze_loop.simps) (simp add: Let_def)

text \<open>A run of attempts that all end in a rate-limit error: one round of the trace each.\<close>

lemma analyze_loop_rounds:
  assumes "\<And>j. a \<le> j \<Longrightarrow> j < a + d \<Longrightarrow>
             \<exists>e. try_body parse (llm j (build_prompt code)) = Inl e \<and> is_rate_limit (exn_msg e)"
    and "int (a + d) \<le> mr"
    and "\<And>j. a \<le> j \<Longrightarrow> j < a + d \<Longrightarrow> sleeps sleep bd j"
  shows "analyze_loop parse llm sleep code mr bd a tr
           = analyze_loop parse llm sleep code mr bd (a + d)
               (tr @ concat (map (retry_round code bd) [a..<a + d]))"
  using assms
proof (induction d arbitrary: a tr)
  case 0
  then show ?case by simp
next
  case (Suc d)
  from Suc.prems(1)[of a] obtain e
    where e: "try_body parse (llm a (build_prompt code)) = Inl e" "is_rate_limit (exn_msg e)"
    by auto
  from Suc.prems(2) have lt: "int a < mr" by simp
  have sl: "sleeps sleep bd a" using Suc.prems(3)[of a] by simp
  have step: "analyze_loop parse llm sleep code mr bd a tr
                = analyze_loop parse llm sleep code mr bd (Suc a) (tr @ retry_round code bd a)"
    using lt e sl by (rule analyze_loop_retry)
  have rest: "analyze_loop parse llm sleep code mr bd (Suc a) (tr @ retry_round code bd a)
                = analyze_loop parse llm sleep code mr bd (Suc a + d)
                    ((tr @ retry_round code bd a) @ concat (map (retry_round code bd) [Suc a..<Suc a + d]))"
  proof (rule Suc.IH)
    fix j assume "Suc a \<le> j" "j < Suc a + d"
    then show "\<exists>e. try_body parse (llm j (build_prompt code)) = Inl e \<and> is_rate_limit (exn_msg e)"
      using Suc.prems(1)[of j] by simp
  next
    show "int (Suc a + d) \<le> mr" using Suc.prems(2) by simp
  next
    fix j assume "Suc a \<le> j" "j < Suc a + d"
    then show "sleeps sleep bd j" using Suc.prems(3)[of j] by simp
  qed
  have "[a..<a + Suc d] = a # [Suc a..<Suc a + d]"
    by (simp add: upt_conv_Cons)
  with step rest show ?case by simp
qed

lemma invocations_rounds:
  "invocations (concat (map (retry_round code bd) [a..<b]))
     = replicate (b - a) (build_prompt code)"
proof (induction b)
  case 0
  then show ?case by (simp add: invocations_def)
next
  case (Suc b)
  show ?case
  proof (cases "a \<le> b")
    case True
    then have "Suc b - a = Suc (b - a)" by simp
    with Suc True show ?thesis
      by (simp add: invocations_def retry_round_def replicate_append_same)
  next
    case False
    then show ?thesis by (simp add: invocations_def)
  qed
qed

lemma delays_rounds:
  "delays (concat (map (retry_round code bd) [a..<b])) = map (\<lambda>k. bd * 2 ^ k) [a..<b]"
proof (induction b)
  case 0
  then show ?case by (simp add: delays_def)
next
  case (Suc b)
  then show ?case by (cases "a \<le> b") (simp_all add: delays_def retry_round_def)
qed

lemma invocations_append: "invocations (xs @ ys) = invocations xs @ invocations ys"
  by (simp add: invocations_def)

lemma delays_append: "delays (xs @ ys) = delays xs @ delays ys"
  by (simp add: delays_def)

text \<open>An analysis always comes back: with a parsed value, the failure value, or an exception.\<close>

lemma analyze_loop_unparsed:
  assumes "\<And>k. \<exists>e. try_body parse (llm k (build_prompt code)) = Inl e"
  shows "fst (analyze_loop parse llm sleep code mr bd a tr) = Inr (rate_limit_exceeded mr)
           \<or> (\<exists>e. fst (analyze_loop parse llm sleep code mr bd a tr) = Inl e)"
proof (induction "nat (mr - int a)" arbitrary: a tr)
  case 0
  then have "\<not> int a < mr" by simp
  then show ?case by (simp add: analyze_loop_exhausted)
next
  case (Suc n)
  then have lt: "int a < mr" by linarith
  from assms obtain e where e: "try_body parse (llm a (build_prompt code)) = Inl e" by blast
  show ?case
  proof (cases "is_rate_limit (exn_msg e)")
    case False
    with lt e show ?thesis by (simp add: analyze_loop_reraise)
  next
    case rl: True
    show ?thesis
    proof (cases "backoff sleep bd a")
      case (Inl err)
      with lt e rl show ?thesis by (simp add: analyze_loop_backoff_raises)
    next
      case (Inr w)
      with lt e rl have "analyze_loop parse llm sleep code mr bd a tr
          = analyze_loop parse llm sleep code mr bd (Suc a)
              (tr @ [Invoke (build_prompt code), Sleep w])"
        by (simp add: analyze_loop_slept)
      moreover have "n = nat (mr - int (Suc a))" using Suc(2) by simp
      ultimately show ?thesis using Suc(1)[of "Suc a"] by simp
    qed
  qed
qed

lemma analyze_code_chunk_all_limited:
  assumes "\<And>j. \<exists>e. try_body parse (llm j (build_prompt code)) = Inl e \<and> is_rate_limit (exn_msg e)"
    and "0 \<le> mr" and "\<And>j. int j < mr \<Longrightarrow> sleeps sleep bd j"
  shows "analyze_code_chunk parse llm sleep code mr bd
           = (Inr (rate_limit_exceeded mr), concat (map (retry_round code bd) [0..<nat mr]))"
proof -
  have "analyze_loop parse llm sleep code mr bd 0 []
          = analyze_loop parse llm sleep code mr bd (0 + nat mr)
              ([] @ concat (map (retry_round code bd) [0..<0 + nat mr]))"
  proof (rule analyze_loop_rounds)
    fix j assume "j < 0 + nat mr"
    then show "sleeps sleep bd j" using assms(3)[of j] by simp
  qed (use assms in simp_all)
  also have "\<dots> = (Inr (rate_limit_exceeded mr), concat (map (retry_round code bd) [0..<nat mr]))"
    using assms(2) by (simp add: analyze_loop_exhausted)
  finally show ?thesis by (simp add: analyze_code_chunk_def)
qed

lemma analyze_code_chunk_reraise_at:
  assumes "int k < mr"
    and "\<And>j. j < k \<Longrightarrow> sleeps sleep bd j"
    and "\<And>j. j < k \<Longrightarrow>
           \<exists>e'. try_body parse (llm j (build_prompt code)) = Inl e' \<and> is_rate_limit (exn_msg e')"
    and "try_body parse (llm k (build_prompt code)) = Inl e"
    and "\<not> is_rate_limit (exn_msg e)"
  shows "analyze_code_chunk parse llm sleep code mr bd
           = (Inl e, concat (map (retry_round code bd) [0..<k]) @ [Invoke (build_prompt code)])"
proof -
  have "analyze_loop parse llm sleep code mr bd 0 []
          = analyze_loop parse llm sleep code mr bd (0 + k)
              ([] @ concat (map (retry_round code bd) [0..<0 + k]))"
    by (rule analyze_loop_rounds) (use assms in simp_all)
  also have "\<dots> = (Inl e, concat (map (retry_round code bd) [0..<k]) @ [Invoke (build_prompt code)])"
    using assms(1,4,5) by (simp add: analyze_loop_reraise)
  finally show ?thesis by (simp add: analyze_code_chunk_def)
qed

lemma analyze_code_chunk_backoff_raises_at:
  assumes "int k < mr"
    and "\<And>j. j < k \<Longrightarrow> sleeps sleep bd j"
    and "\<And>j. j \<le> k \<Longrightarrow>
           \<exists>e'. try_body parse (llm j (build_prompt code)) = Inl e' \<and> is_rate_limit (exn_msg e')"
    and "backoff sleep bd k = Inl err"
  shows "analyze_code_chunk parse llm sleep code mr bd
           = (Inl err, concat (map (retry_round code bd) [0..<k]) @ [Invoke (build_prompt code)])"
proof -
  from assms(3)[of k] obtain e
    where e: "try_body parse (llm k (build_prompt code)) = Inl e" "is_rate_limit (exn_msg e)"
    by auto
  have "analyze_loop parse llm sleep code mr bd 0 []
          = analyze_loop parse llm sleep code mr bd (0 + k)
              ([] @ concat (map (retry_round code bd) [0..<0 + k]))"
    by (rule analyze_loop_rounds) (use assms in simp_all)
  also have "\<dots> = (Inl err, concat (map (retry_round code bd) [0..<k]) @ [Invoke (build_prompt code)])"
    using assms(1,4) e by (simp add: analyze_loop_backoff_raises)
  finally show ?thesis by (simp add: analyze_code_chunk_def)
qed

text \<open>The sleeps of the source's interpreter, at the lengths that are used below.\<close>

lemma float_max_large: "2 ^ 63 \<le> float_max"
proof -
  have "(1::real) * 2 ^ 63 \<le> (2 ^ 53 - 1) * 2 ^ 971"
    by (rule mult_mono) simp_all
  then show ?thesis by (simp add: float_max_def)
qed

lemma sleeps_time_sleep:
  assumes "0 \<le> bd" and "bd * 2 ^ k < sleep_limit" and "k < 1024"
  shows "sleeps time_sleep bd k"
proof -
  have nn: "0 \<le> bd * 2 ^ k" using assms(1) by simp
  have pos: "0 < sleep_limit" by (simp add: sleep_limit_def)
  have "sleep_limit \<le> 2 ^ 63" by (simp add: sleep_limit_def)
  with assms(2) float_max_large have le: "bd * 2 ^ k \<le> float_max" by linarith
  have a: "\<not> (sleep_limit \<le> bd * 2 ^ k \<or> bd * 2 ^ k < - sleep_limit)"
    using nn pos assms(2) by linarith
  have b: "\<not> bd * 2 ^ k < 0" using nn by linarith
  have "time_sleep (bd * 2 ^ k) = None"
    unfolding time_sleep_def using a b by (simp only: if_False)
  moreover have "\<bar>bd * 2 ^ k\<bar> \<le> float_max" using nn le by (simp only: abs_of_nonneg)
  ultimately show ?thesis using assms(3) by (simp only: sleeps_def simp_thms)
qed

lemma sleeps_default:
  assumes "int k < default_max_retries"
  shows "sleeps time_sleep default_base_delay k"
proof (rule sleeps_time_sleep)
  from assms have k: "k \<le> 4" by (simp add: default_max_retries_def)
  then have "(2::real) ^ k \<le> 2 ^ 4" by (intro power_increasing) simp_all
  then show "default_base_delay * 2 ^ k < sleep_limit"
    by (simp add: default_base_delay_def sleep_limit_def)
  from k show "k < 1024" by simp
qed (simp add: default_base_delay_def)

text \<open>The asynchronous analysis.\<close>

lemma analyze_loop_async_exhausted:
  "\<not> int a < mr \<Longrightarrow>
     analyze_loop_async parse llm code mr bd a tr = Some (Inr (rate_limit_exceeded mr), tr)"
  by (subst analyze_loop_async.simps) simp

lemma analyze_loop_async_parsed:
  "int a < mr \<Longrightarrow> try_body parse (llm a (build_prompt code)) = Inr v \<Longrightarrow>
     analyze_loop_async parse llm code mr bd a tr = Some (Inr v, tr @ [Invoke (build_prompt code)])"
  by (subst analyze_loop_async.simps) (simp add: Let_def)

lemma analyze_loop_async_reraise:
  "int a < mr \<Longrightarrow> try_body parse (llm a (build_prompt code)) = Inl e \<Longrightarrow>
     \<not> is_rate_limit (exn_msg e) \<Longrightarrow>
     analyze_loop_async parse llm code mr bd a tr = Some (Inl e, tr @ [Invoke (build_prompt code)])"
  by (subst analyze_loop_async.simps) (simp add: Let_def)

lemma analyze_loop_async_slept:
  "int a < mr \<Longrightarrow> try_body parse (llm a (build_prompt code)) = Inl e \<Longrightarrow>
     is_rate_limit (exn_msg e) \<Longrightarrow> a < 1024 \<Longrightarrow> bd * 2 ^ a \<le> float_max \<Longrightarrow>
     analyze_loop_async parse llm code mr bd a tr
       = analyze_loop_async parse llm code mr bd (Suc a) (tr @ retry_round code bd a)"
  by (subst analyze_loop_async.simps) (simp add: Let_def backoff_async_def retry_round_def)

lemma analyze_loop_async_ends:
  assumes "\<And>j. int j < mr \<Longrightarrow> j < 1024 \<and> bd * 2 ^ j \<le> float_max"
  shows "\<exists>r. analyze_loop_async parse llm code mr bd a tr = Some r"
proof (induction "nat (mr - int a)" arbitrary: a tr)
  case 0
  then have "\<not> int a < mr" by simp
  then show ?case by (simp add: analyze_loop_async_exhausted)
next
  case (Suc n)
  then have lt: "int a < mr" by linarith
  show ?case
  proof (cases "try_body parse (llm a (build_prompt code))")
    case (Inr v)
    with lt show ?thesis by (simp add: analyze_loop_async_parsed)
  next
    case (Inl e)
    show ?thesis
    proof (cases "is_rate_limit (exn_msg e)")
      case False
      with lt Inl show ?thesis by (simp add: analyze_loop_async_reraise)
    next
      case True
      from assms [OF lt] have "a < 1024" "bd * 2 ^ a \<le> float_max" by simp_all
      with lt Inl True have "analyze_loop_async parse llm code mr bd a tr
          = analyze_loop_async parse llm code mr bd (Suc a) (tr @ retry_round code bd a)"
        by (rule analyze_loop_async_slept)
      moreover have "n = nat (mr - int (Suc a))" using Suc(2) by simp
      ultimately show ?thesis using Suc(1)[of "Suc a"] by simp
    qed
  qed
qed

lemma analyze_code_chunk_async_ends:
  "\<exists>r. analyze_code_chunk_async parse llm code default_max_retries default_base_delay = Some r"
  unfolding analyze_code_chunk_async_def
proof (rule analyze_loop_async_ends)
  fix j assume "int j < default_max_retries"
  then have "sleeps time_sleep default_base_delay j" by (rule sleeps_default)
  then show "j < 1024 \<and> default_base_delay * 2 ^ j \<le> float_max"
    by (simp add: sleeps_def abs_le_iff)
qed

lemma not_rate_limit_connection: "\<not> is_rate_limit ''Connection error.''"
  by (simp add: is_rate_limit_def lower_def lower_char_def)

lemma rate_limit_429: "is_rate_limit ''Error code: 429''"
  by (simp add: is_rate_limit_def)

lemma parser_rejects_not_json:
  "simple_json_output_parser (clean_json_string ''{not json}'')
     = Inl (Exn ''OutputParserException'' ''Invalid json output: {not json}'')"
proof -
  have c: "clean_json_string ''{not json}'' = ''{not json}''"
    by (simp add: clean_json_string_def drop_before_brace_def drop_after_brace_def strip_def
        isspace_def)
  have s: "strip ''{not json}'' = ''{not json}''"
    by (simp add: strip_def isspace_def)
  have "json_loads ''{not json}'' = None"
    by (simp add: json_loads_def skip_ws_def is_json_ws_def dq_def)
  with c s show ?thesis by (simp add: simple_json_output_parser_def)
qed

lemma parser_rejects_429:
  "simple_json_output_parser (clean_json_string ''{429}'')
     = Inl (Exn ''OutputParserException'' ''Invalid json output: {429}'')"
proof -
  have c: "clean_json_string ''{429}'' = ''{429}''"
    by (simp add: clean_json_string_def drop_before_brace_def drop_after_brace_def strip_def
        isspace_def)
  have s: "strip ''{429}'' = ''{429}''"
    by (simp add: strip_def isspace_def)
  have "json_loads ''{429}'' = None"
    by (simp add: json_loads_def skip_ws_def is_json_ws_def dq_def)
  with c s show ?thesis by (simp add: simple_json_output_parser_def)
qed

lemma not_rate_limit_not_json: "\<not> is_rate_limit ''Invalid json output: {not json}''"
  by (simp add: is_rate_limit_def lower_def lower_char_def)

lemma rate_limit_in_parse_message: "is_rate_limit ''Invalid json output: {429}''"
  by (simp add: is_rate_limit_def)

section \<open>Claims on the oracle client\<close>

text \<open>
  C2, as the code has it. A chunk whose oracle call raises a rate-limit-classified error
  on every attempt, with a handler that comes to the end of its sleep after each of the
  \<open>max_retries\<close> attempts (the product \<open>base_delay * 2 ^ k\<close> can be computed and
  \<open>time.sleep\<close> returns for it): \<open>analyze_code_chunk\<close> makes exactly \<open>max_retries\<close> calls,
  sleeps \<open>base_delay * 2 ^ k\<close> after the call of attempt \<open>k\<close> (so \<open>base_delay\<close>, twice
  that, four times that, and so on), and then returns the terminal failure value, the
  dictionary with the one key \<open>error\<close> and the message
  \<open>Rate limit exceeded after <max_retries> retries.\<close> The trace is the \<open>max_retries\<close>
  rounds of one call and one sleep, in this order. With the defaults, 5 attempts and 5
  seconds, the sleeps are 5, 10, 20, 40 and 80 seconds, and \<open>time.sleep\<close> returns for them.
\<close>

theorem rate_limited_chunk_exhausts_retries:
  assumes "\<forall>k. \<exists>e. llm k (build_prompt code) = Inl e \<and> is_rate_limit (exn_msg e)"
    and "0 \<le> max_retries"
    and "\<forall>k. int k < max_retries \<longrightarrow> sleeps sleep base_delay k"
  shows "analyze_code_chunk parse llm sleep code max_retries base_delay
           = (Inr (rate_limit_exceeded max_retries),
              concat (map (retry_round code base_delay) [0..<nat max_retries]))
         \<and> int (length (invocations (snd (analyze_code_chunk parse llm sleep code max_retries base_delay))))
             = max_retries
         \<and> delays (snd (analyze_code_chunk parse llm sleep code max_retries base_delay))
             = map (\<lambda>k. base_delay * 2 ^ k) [0..<nat max_retries]
         \<and> (\<forall>k. int k < default_max_retries \<longrightarrow> sleeps time_sleep default_base_delay k)"
proof -
  let ?n = "nat max_retries"
  have each: "\<exists>e. try_body parse (llm j (build_prompt code)) = Inl e \<and> is_rate_limit (exn_msg e)" for j
  proof -
    from assms(1) obtain e where "llm j (build_prompt code) = Inl e" "is_rate_limit (exn_msg e)"
      by blast
    then show ?thesis by (simp add: try_body_def)
  qed
  have "analyze_loop parse llm sleep code max_retries base_delay 0 []
          = analyze_loop parse llm sleep code max_retries base_delay (0 + ?n)
              ([] @ concat (map (retry_round code base_delay) [0..<0 + ?n]))"
  proof (rule analyze_loop_rounds)
    fix j assume "j < 0 + ?n"
    then show "sleeps sleep base_delay j" using assms(3) by simp
  qed (use each assms(2) in simp_all)
  also have "\<dots> = (Inr (rate_limit_exceeded max_retries),
                    concat (map (retry_round code base_delay) [0..<?n]))"
    using assms(2) by (simp add: analyze_loop_exhausted)
  finally have run: "analyze_code_chunk parse llm sleep code max_retries base_delay
      = (Inr (rate_limit_exceeded max_retries), concat (map (retry_round code base_delay) [0..<?n]))"
    by (simp add: analyze_code_chunk_def)
  show ?thesis
    using assms(2) sleeps_default by (simp add: run invocations_rounds delays_rounds)
qed

theorem rate_limited_chunk_exhausts_retries_witness:
  "analyze_code_chunk simple_json_output_parser always_limited time_sleep ''def f(): pass''
       default_max_retries default_base_delay
     = (Inr (JObj [(''error'', JStr ''Rate limit exceeded after 5 retries.'')]),
        concat (map (retry_round ''def f(): pass'' 5) [0, 1, 2, 3, 4]))
   \<and> length (invocations (snd (analyze_code_chunk simple_json_output_parser always_limited
       time_sleep ''def f(): pass'' default_max_retries default_base_delay))) = 5
   \<and> delays (snd (analyze_code_chunk simple_json_output_parser always_limited
       time_sleep ''def f(): pass'' default_max_retries default_base_delay)) = [5, 10, 20, 40, 80]"
proof -
  have h1: "\<forall>k. \<exists>e. always_limited k (build_prompt ''def f(): pass'') = Inl e
              \<and> is_rate_limit (exn_msg e)"
    using rate_limit_429 by (simp add: always_limited_def)
  have h2: "0 \<le> default_max_retries" by (simp add: default_max_retries_def)
  have h3: "\<forall>k. int k < default_max_retries \<longrightarrow> sleeps time_sleep default_base_delay k"
    using sleeps_default by blast
  have up: "[0..<nat default_max_retries] = [0, 1, 2, 3, 4]"
    by (simp add: default_max_retries_def upt_conv_Cons)
  have msg: "rate_limit_exceeded default_max_retries
               = JObj [(''error'', JStr ''Rate limit exceeded after 5 retries.'')]"
    by (simp add: rate_limit_exceeded_def default_max_retries_def str_int_def digit_char_def)
  note main = rate_limited_chunk_exhausts_retries
    [where parse = simple_json_output_parser and llm = always_limited and sleep = time_sleep
       and code = "''def f(): pass''" and max_retries = default_max_retries
       and base_delay = default_base_delay, OF h1 h2 h3, unfolded up msg]
  have a: "analyze_code_chunk simple_json_output_parser always_limited time_sleep ''def f(): pass''
             default_max_retries default_base_delay
           = (Inr (JObj [(''error'', JStr ''Rate limit exceeded after 5 retries.'')]),
              concat (map (retry_round ''def f(): pass'' 5) [0, 1, 2, 3, 4]))"
    using main [THEN conjunct1] by (simp add: default_base_delay_def)
  have b: "length (invocations (snd (analyze_code_chunk simple_json_output_parser always_limited
             time_sleep ''def f(): pass'' default_max_retries default_base_delay))) = 5"
    using main [THEN conjunct2, THEN conjunct1] by (simp add: default_max_retries_def)
  have c: "delays (snd (analyze_code_chunk simple_json_output_parser always_limited
             time_sleep ''def f(): pass'' default_max_retries default_base_delay)) = [5, 10, 20, 40, 80]"
    using main [THEN conjunct2, THEN conjunct2, THEN conjunct1] by (simp add: default_base_delay_def)
  from a b c show ?thesis by blast
qed

text \<open>
  C2 as the spec states it fails when the handler cannot sleep. With 40 retries and the
  default base delay the sleep after attempt 31 would be \<open>5 * 2 ^ 31\<close> seconds:
  \<open>time.sleep\<close> raises \<open>OverflowError\<close>, which leaves the analysis after 32 calls and 31
  sleeps. With the default retries and a base delay of \<open>10 ^ 10\<close> seconds the first
  sleep already raises, after one call. With 1025 retries and a base delay of 0 the
  product after attempt 1024 raises \<open>OverflowError\<close>, after 1025 calls. In none of
  these runs a failure value is returned.
\<close>

theorem long_sleep_raises_overflow:
  "analyze_code_chunk simple_json_output_parser always_limited time_sleep ''def f(): pass''
       40 default_base_delay
     = (Inl (Exn ''OverflowError'' ''timestamp out of range for platform time_t''),
        concat (map (retry_round ''def f(): pass'' 5) [0..<31]) @ [Invoke (build_prompt ''def f(): pass'')])
   \<and> length (invocations (snd (analyze_code_chunk simple_json_output_parser always_limited
       time_sleep ''def f(): pass'' 40 default_base_delay))) = 32
   \<and> length (delays (snd (analyze_code_chunk simple_json_output_parser always_limited
       time_sleep ''def f(): pass'' 40 default_base_delay))) = 31
   \<and> analyze_code_chunk simple_json_output_parser always_limited time_sleep ''def f(): pass''
       default_max_retries 10000000000
     = (Inl (Exn ''OverflowError'' ''timestamp out of range for platform time_t''),
        [Invoke (build_prompt ''def f(): pass'')])
   \<and> analyze_code_chunk simple_json_output_parser always_limited time_sleep ''def f(): pass''
       1025 0
     = (Inl (Exn ''OverflowError'' ''int too large to convert to float''),
        concat (map (retry_round ''def f(): pass'' 0) [0..<1024])
        @ [Invoke (build_prompt ''def f(): pass'')])"
proof -
  have lim: "\<exists>e'. try_body simple_json_output_parser (always_limited j (build_prompt ''def f(): pass''))
               = Inl e' \<and> is_rate_limit (exn_msg e')" for j
    using rate_limit_429 by (simp add: try_body_def always_limited_def)
  have early: "sleeps time_sleep 5 j" if "j < 31" for j
  proof (rule sleeps_time_sleep)
    from that have "(2::real) ^ j \<le> 2 ^ 30" by (intro power_increasing) simp_all
    then show "5 * 2 ^ j < sleep_limit" by (simp add: sleep_limit_def)
    from that show "j < 1024" by simp
  qed simp
  have fm: "(10737418240::real) \<le> float_max" using float_max_large by simp
  have late: "backoff time_sleep 5 31 = Inl sleep_overflow"
    using fm by (simp add: backoff_def time_sleep_def sleep_limit_def)
  have a: "analyze_code_chunk simple_json_output_parser always_limited time_sleep ''def f(): pass''
             40 5
           = (Inl sleep_overflow,
              concat (map (retry_round ''def f(): pass'' 5) [0..<31])
              @ [Invoke (build_prompt ''def f(): pass'')])"
    by (rule analyze_code_chunk_backoff_raises_at) (use lim early late in simp_all)
  have fm2: "(10000000000::real) \<le> float_max" using float_max_large by simp
  have first: "backoff time_sleep 10000000000 0 = Inl sleep_overflow"
    using fm2 by (simp add: backoff_def time_sleep_def sleep_limit_def)
  have "analyze_code_chunk simple_json_output_parser always_limited time_sleep ''def f(): pass''
          default_max_retries 10000000000
        = (Inl sleep_overflow,
           concat (map (retry_round ''def f(): pass'' 10000000000) [0..<0])
           @ [Invoke (build_prompt ''def f(): pass'')])"
    by (rule analyze_code_chunk_backoff_raises_at)
       (use lim first in \<open>simp_all add: default_max_retries_def\<close>)
  then have b: "analyze_code_chunk simple_json_output_parser always_limited time_sleep
      ''def f(): pass'' default_max_retries 10000000000
        = (Inl sleep_overflow, [Invoke (build_prompt ''def f(): pass'')])"
    by simp
  have zero: "sleeps time_sleep 0 j" if "j < 1024" for j
    by (rule sleeps_time_sleep) (use that in \<open>simp_all add: sleep_limit_def\<close>)
  have c: "analyze_code_chunk simple_json_output_parser always_limited time_sleep ''def f(): pass''
             1025 0
           = (Inl int_too_large,
              concat (map (retry_round ''def f(): pass'' 0) [0..<1024])
              @ [Invoke (build_prompt ''def f(): pass'')])"
    by (rule analyze_code_chunk_backoff_raises_at) (use lim zero in \<open>simp_all add: backoff_def\<close>)
  have i: "invocations [Invoke p] = [p]" and d: "delays [Invoke p] = []" for p
    by (simp_all add: invocations_def delays_def)
  show ?thesis
    unfolding default_base_delay_def a b c
    by (simp add: sleep_overflow_def int_too_large_def invocations_append delays_append
        invocations_rounds delays_rounds i d)
qed

text \<open>
  C6. Normalisation keeps the text from the first opening brace to the last closing brace
  and removes what stands before and after; in that text a comma that is followed by
  white space and a closing brace or bracket is removed together with the white space,
  and a text without a comma is left as it is. Applied to the response of the spec,
  \<open>noise{...}trailing\<close>, it yields a text that reads as the JSON object with overview
  \<open>x\<close>, no methods, complexity \<open>low\<close> and empty notes.
\<close>

theorem clean_json_string_normalises:
  \<open>(\<forall>pre mid post. CHR ''{'' \<notin> set pre \<longrightarrow> CHR ''}'' \<notin> set post \<longrightarrow>
       clean_json_string (pre @ ''{'' @ mid @ ''}'' @ post) = sub_trailing_commas (''{'' @ mid @ ''}''))
   \<and> (\<forall>x ws b y. (\<forall>c\<in>set ws. isspace c) \<longrightarrow> b \<in> {CHR ''}'', CHR '']''} \<longrightarrow>
       sub_trailing_commas (x @ '','' @ ws @ [b] @ y)
         = sub_trailing_commas x @ [b] @ sub_trailing_commas y)
   \<and> (\<forall>x. CHR '','' \<notin> set x \<longrightarrow> sub_trailing_commas x = x)
   \<and> clean_json_string ''noise{"overview":"x","methods":[],"complexity":"low","notes":""}trailing''
       = ''{"overview":"x","methods":[],"complexity":"low","notes":""}''
   \<and> json_loads (clean_json_string ''noise{"overview":"x","methods":[],"complexity":"low","notes":""}trailing'')
       = Some (JObj [(''overview'', JStr ''x''), (''methods'', JArr []),
                     (''complexity'', JStr ''low''), (''notes'', JStr '''')])\<close>
proof (intro conjI allI impI)
  fix pre mid post
  assume "CHR ''{'' \<notin> set pre" "CHR ''}'' \<notin> set post"
  then show "clean_json_string (pre @ ''{'' @ mid @ ''}'' @ post) = sub_trailing_commas (''{'' @ mid @ ''}'')"
    using clean_json_string_between[of pre post mid] by simp
next
  fix x ws :: string and b y
  assume ws: "\<forall>c\<in>set ws. isspace c" and b: "b \<in> {CHR ''}'', CHR '']''}"
  have "sub_trailing_commas (x @ CHR '','' # ws @ b # y)
          = sub_trailing_commas x @ sub_trailing_commas (CHR '','' # ws @ b # y)"
    by (rule sub_trailing_commas_split)
  also have "sub_trailing_commas (CHR '','' # ws @ b # y) = b # sub_trailing_commas y"
    using ws b by (intro sub_trailing_commas_match) auto
  finally show "sub_trailing_commas (x @ '','' @ ws @ [b] @ y)
                  = sub_trailing_commas x @ [b] @ sub_trailing_commas y"
    by simp
next
  fix x :: string
  assume "CHR '','' \<notin> set x"
  then show "sub_trailing_commas x = x"
    by (induction x) auto
next
  show c: \<open>clean_json_string ''noise{"overview":"x","methods":[],"complexity":"low","notes":""}trailing''
       = ''{"overview":"x","methods":[],"complexity":"low","notes":""}''\<close>
    by (simp add: clean_json_string_def drop_before_brace_def drop_after_brace_def strip_def
        isspace_def)
  show \<open>json_loads (clean_json_string ''noise{"overview":"x","methods":[],"complexity":"low","notes":""}trailing'')
       = Some (JObj [(''overview'', JStr ''x''), (''methods'', JArr []),
                     (''complexity'', JStr ''low''), (''notes'', JStr '''')])\<close>
    unfolding c by (simp add: json_loads_def skip_ws_def is_json_ws_def dq_def backslash_def)
qed

theorem clean_json_string_normalises_witness:
  "clean_json_string (''Sure: '' @ ''{'' @ ''[1, ] , '' @ ''}'' @ '' done'') = ''{[1] }''"
proof -
  note main = clean_json_string_normalises
  have between: "clean_json_string (''Sure: '' @ ''{'' @ ''[1, ] , '' @ ''}'' @ '' done'')
                   = sub_trailing_commas (''{'' @ ''[1, ] , '' @ ''}'')"
    using main [THEN conjunct1, rule_format, of "''Sure: ''" "'' done''" "''[1, ] , ''"] by simp
  have inner: "sub_trailing_commas (''{[1'' @ '','' @ '' '' @ [CHR '']''] @ '' , }'')
                 = sub_trailing_commas ''{[1'' @ [CHR '']''] @ sub_trailing_commas '' , }''"
    using main [THEN conjunct2, THEN conjunct1, rule_format, of "'' ''" "CHR '']''" "''{[1''" "'' , }''"]
    by (simp add: isspace_def)
  have outer: "sub_trailing_commas ('' '' @ '','' @ '' '' @ [CHR ''}''] @ [])
                 = sub_trailing_commas '' '' @ [CHR ''}''] @ sub_trailing_commas []"
    using main [THEN conjunct2, THEN conjunct1, rule_format, of "'' ''" "CHR ''}''" "'' ''" "[]"]
    by (simp add: isspace_def)
  have plain: "sub_trailing_commas ''{[1'' = ''{[1''"
    using main [THEN conjunct2, THEN conjunct2, THEN conjunct1, rule_format, of "''{[1''"]
    by simp
  have "sub_trailing_commas (''{'' @ ''[1, ] , '' @ ''}'') = ''{[1] }''"
    using inner outer plain by simp
  with between show ?thesis by simp
qed

text \<open>
  C10. A response without an opening brace, or without a closing brace, is normalised to
  the empty string. The reference reader rejects the empty text; with any parser that does
  so, a transport whose responses all lack a brace pair never leads to a parsed result:
  the analysis ends with the failure value of exhausted retries or with an exception.
\<close>

theorem no_brace_pair_never_parsed:
  assumes "parse [] = Inl err"
    and "\<forall>k raw. llm k (build_prompt code) = Inr raw \<longrightarrow>
           CHR ''{'' \<notin> set raw \<or> CHR ''}'' \<notin> set raw"
  shows "(\<forall>s. CHR ''{'' \<notin> set s \<or> CHR ''}'' \<notin> set s \<longrightarrow>
            clean_json_string s = [] \<and> json_loads (clean_json_string s) = None)
         \<and> (\<forall>k raw. llm k (build_prompt code) = Inr raw \<longrightarrow>
              try_body parse (llm k (build_prompt code)) = Inl err)
         \<and> (fst (analyze_code_chunk parse llm sleep code max_retries base_delay)
              = Inr (rate_limit_exceeded max_retries)
            \<or> (\<exists>e. fst (analyze_code_chunk parse llm sleep code max_retries base_delay) = Inl e))"
proof (intro conjI allI impI)
  fix s :: string
  assume "CHR ''{'' \<notin> set s \<or> CHR ''}'' \<notin> set s"
  then show "clean_json_string s = []" by (rule clean_json_string_no_pair)
  then show "json_loads (clean_json_string s) = None"
    by (simp add: json_loads_def skip_ws_def)
next
  fix k raw
  assume r: "llm k (build_prompt code) = Inr raw"
  with assms(2) have "clean_json_string raw = []"
    by (intro clean_json_string_no_pair) blast
  with r assms(1) show "try_body parse (llm k (build_prompt code)) = Inl err"
    by (simp add: try_body_def)
next
  have "\<exists>e. try_body parse (llm k (build_prompt code)) = Inl e" for k
  proof (cases "llm k (build_prompt code)")
    case (Inl e)
    then show ?thesis by (simp add: try_body_def)
  next
    case (Inr raw)
    with assms(2) have "clean_json_string raw = []"
      by (intro clean_json_string_no_pair) blast
    with Inr assms(1) show ?thesis by (simp add: try_body_def)
  qed
  then show "fst (analyze_code_chunk parse llm sleep code max_retries base_delay)
               = Inr (rate_limit_exceeded max_retries)
             \<or> (\<exists>e. fst (analyze_code_chunk parse llm sleep code max_retries base_delay) = Inl e)"
    unfolding analyze_code_chunk_def by (rule analyze_loop_unparsed)
qed

theorem no_brace_pair_never_parsed_witness:
  "clean_json_string ''I cannot analyse this code.'' = []
   \<and> clean_json_string ''} before {'' = []
   \<and> try_body simple_json_output_parser (Inr ''I cannot analyse this code.'')
       = Inl (Exn ''OutputParserException'' ''Invalid json output: '')
   \<and> fst (analyze_code_chunk simple_json_output_parser
            (\<lambda>k prompt. Inr ''I cannot analyse this code.'') time_sleep ''x = 1'' 5 5)
       = Inl (Exn ''OutputParserException'' ''Invalid json output: '')"
proof -
  let ?llm = "\<lambda>(k::nat) (prompt::string). (Inr ''I cannot analyse this code.'' :: exn + string)"
  let ?err = "Exn ''OutputParserException'' ''Invalid json output: ''"
  have h1: "simple_json_output_parser [] = Inl ?err"
    by (simp add: simple_json_output_parser_def strip_def json_loads_def skip_ws_def)
  have h2: "\<forall>k raw. ?llm k (build_prompt ''x = 1'') = Inr raw \<longrightarrow>
              CHR ''{'' \<notin> set raw \<or> CHR ''}'' \<notin> set raw"
    by auto
  note main = no_brace_pair_never_parsed
    [where parse = simple_json_output_parser and err = "?err" and llm = "?llm"
       and code = "''x = 1''" and max_retries = 5 and base_delay = 5 and sleep = time_sleep,
     OF h1 h2]
  have a: "clean_json_string ''I cannot analyse this code.'' = []"
    using main [THEN conjunct1, rule_format, of "''I cannot analyse this code.''"] by simp
  have b: "try_body simple_json_output_parser (Inr ''I cannot analyse this code.'') = Inl ?err"
    using main [THEN conjunct2, THEN conjunct1, rule_format, of "''I cannot analyse this code.''"]
    by simp
  have c: "clean_json_string ''} before {'' = []"
    by (simp add: clean_json_string_def drop_before_brace_def drop_after_brace_def strip_def)
  have nrl: "\<not> is_rate_limit ''Invalid json output: ''"
    by (simp add: is_rate_limit_def lower_def lower_char_def)
  have d: "fst (analyze_code_chunk simple_json_output_parser ?llm time_sleep ''x = 1'' 5 5) = Inl ?err"
    unfolding analyze_code_chunk_def
    using b nrl by (subst analyze_loop_reraise [where e = "?err"]) simp_all
  from a b c d show ?thesis by simp
qed

text \<open>
  C3, as the code has it. An exception of the oracle call that is not classified as rate
  limiting is not turned into a returned failure value: \<open>analyze_code_chunk\<close> raises it
  again, at once, with no sleep and no further call after the call that raised it. (The
  attempts before it, if any, have ended in rate-limit errors, each followed by its
  sleep.) It is the caller that captures the exception: the loop of the synchronous
  extractor and the task of the asynchronous one both turn it into one note for the chunk,
  \<open>LLM error: <class>: <message>\<close>, and go on.
\<close>

theorem non_rate_limit_exception_is_reraised:
  assumes "int k < max_retries"
    and "\<forall>j<k. sleeps sleep base_delay j"
    and "\<forall>j<k. \<exists>e'. llm j (build_prompt code) = Inl e' \<and> is_rate_limit (exn_msg e')"
    and "llm k (build_prompt code) = Inl e" and "\<not> is_rate_limit (exn_msg e)"
  shows "analyze_code_chunk parse llm sleep code max_retries base_delay
           = (Inl e, concat (map (retry_round code base_delay) [0..<k]) @ [Invoke (build_prompt code)])
         \<and> sync_step kn (chunk_info, Inl e)
             = Inr (kn\<lparr>notes_of := notes_of kn @ [tagged chunk_info ''notes'' (llm_error_text e)]\<rparr>)
         \<and> process_chunk_with_limit chunk_info (Inl e)
             = Inr [typed chunk_info ''notes'' (llm_error_text e)]"
proof (intro conjI)
  show "analyze_code_chunk parse llm sleep code max_retries base_delay
          = (Inl e, concat (map (retry_round code base_delay) [0..<k]) @ [Invoke (build_prompt code)])"
  proof (rule analyze_code_chunk_reraise_at [OF assms(1)])
    fix j assume "j < k"
    with assms(2) show "sleeps sleep base_delay j" by simp
  next
    fix j assume "j < k"
    with assms(3) obtain e' where "llm j (build_prompt code) = Inl e'" "is_rate_limit (exn_msg e')"
      by blast
    then show "\<exists>e'. try_body parse (llm j (build_prompt code)) = Inl e' \<and> is_rate_limit (exn_msg e')"
      by (simp add: try_body_def)
  next
    show "try_body parse (llm k (build_prompt code)) = Inl e"
      using assms(4) by (simp add: try_body_def)
  next
    show "\<not> is_rate_limit (exn_msg e)" by (rule assms(5))
  qed
next
  show "sync_step kn (chunk_info, Inl e)
          = Inr (kn\<lparr>notes_of := notes_of kn @ [tagged chunk_info ''notes'' (llm_error_text e)]\<rparr>)"
    by (simp add: sync_step_def)
next
  show "process_chunk_with_limit chunk_info (Inl e)
          = Inr [typed chunk_info ''notes'' (llm_error_text e)]"
    by (simp add: process_chunk_with_limit_def)
qed

theorem non_rate_limit_exception_is_reraised_witness:
  "analyze_code_chunk simple_json_output_parser limited_then_refused time_sleep ''x = 1'' 5 5
     = (Inl (Exn ''APIConnectionError'' ''Connection error.''),
        [Invoke (build_prompt ''x = 1''), Sleep 5, Invoke (build_prompt ''x = 1'')])
   \<and> sync_step (empty_knowledge (JObj [])) (chunk_a, Inl (Exn ''APIConnectionError'' ''Connection error.''))
       = Inr \<lparr>project_info = JObj [], overview = [], methods = [], complexity = [],
              notes_of = [JObj [(''file'', JStr ''a.py''), (''chunk_index'', JNum 0),
                                (''notes'', JStr ''LLM error: APIConnectionError: Connection error.'')]]\<rparr>
   \<and> process_chunk_with_limit chunk_a (Inl (Exn ''APIConnectionError'' ''Connection error.''))
       = Inr [JObj [(''type'', JStr ''notes''), (''file'', JStr ''a.py''), (''chunk_index'', JNum 0),
                    (''notes'', JStr ''LLM error: APIConnectionError: Connection error.'')]]"
proof -
  let ?e = "Exn ''APIConnectionError'' ''Connection error.''"
  have h1: "int 1 < 5" by simp
  have h2: "\<forall>j<1. sleeps time_sleep 5 j"
    using sleeps_default [of 0] by (simp add: default_max_retries_def default_base_delay_def)
  have h3: "\<forall>j<1. \<exists>e'. limited_then_refused j (build_prompt ''x = 1'') = Inl e'
              \<and> is_rate_limit (exn_msg e')"
    using rate_limit_429 by (simp add: limited_then_refused_def)
  have h4: "limited_then_refused 1 (build_prompt ''x = 1'') = Inl ?e"
    by (simp add: limited_then_refused_def)
  have h5: "\<not> is_rate_limit (exn_msg ?e)"
    using not_rate_limit_connection by simp
  note main = non_rate_limit_exception_is_reraised
    [where parse = simple_json_output_parser and kn = "empty_knowledge (JObj [])"
       and chunk_info = chunk_a and llm = limited_then_refused and code = "''x = 1''"
       and k = 1 and max_retries = 5 and base_delay = 5 and e = "?e" and sleep = time_sleep,
     OF h1 h2 h3 h4 h5]
  have a: "analyze_code_chunk simple_json_output_parser limited_then_refused time_sleep ''x = 1'' 5 5
     = (Inl ?e, [Invoke (build_prompt ''x = 1''), Sleep 5, Invoke (build_prompt ''x = 1'')])"
    using main [THEN conjunct1] by (simp add: retry_round_def)
  have b: "sync_step (empty_knowledge (JObj [])) (chunk_a, Inl ?e)
       = Inr \<lparr>project_info = JObj [], overview = [], methods = [], complexity = [],
              notes_of = [JObj [(''file'', JStr ''a.py''), (''chunk_index'', JNum 0),
                                (''notes'', JStr ''LLM error: APIConnectionError: Connection error.'')]]\<rparr>"
    using main [THEN conjunct2, THEN conjunct1]
    by (simp add: empty_knowledge_def tagged_def llm_error_text_def chunk_a_def)
  have c: "process_chunk_with_limit chunk_a (Inl ?e)
       = Inr [JObj [(''type'', JStr ''notes''), (''file'', JStr ''a.py''), (''chunk_index'', JNum 0),
                    (''notes'', JStr ''LLM error: APIConnectionError: Connection error.'')]]"
    using main [THEN conjunct2, THEN conjunct2]
    by (simp add: typed_def llm_error_text_def chunk_a_def)
  from a b c show ?thesis by blast
qed

text \<open>
  C3 as the spec states it fails: with a transport that refuses the connection, the
  exception leaves \<open>analyze_code_chunk\<close> instead of being returned as a value.
\<close>

theorem oracle_exception_propagates:
  "analyze_code_chunk simple_json_output_parser connection_refused time_sleep ''x = 1''
       default_max_retries default_base_delay
     = (Inl (Exn ''APIConnectionError'' ''Connection error.''), [Invoke (build_prompt ''x = 1'')])"
proof -
  have "analyze_code_chunk simple_json_output_parser connection_refused time_sleep ''x = 1''
          default_max_retries default_base_delay
        = (Inl (Exn ''APIConnectionError'' ''Connection error.''),
           concat (map (retry_round ''x = 1'' default_base_delay) [0..<0]) @ [Invoke (build_prompt ''x = 1'')])"
    by (rule analyze_code_chunk_reraise_at)
       (simp_all add: default_max_retries_def try_body_def
          connection_refused_def not_rate_limit_connection)
  then show ?thesis by simp
qed

text \<open>
  C4, as the code has it. A response whose normalised text the parser rejects, with an
  exception whose message is not classified as rate limiting, is not retried: no sleep
  and no further call follow, and \<open>analyze_code_chunk\<close> raises the parser's exception
  again instead of returning a failure value. (The attempts before it, if any, have ended
  in rate-limit errors, each followed by its sleep.) The callers turn it into the chunk's
  note \<open>LLM error: <class>: <message>\<close>. (The handler is the one of the oracle call: it
  tests the message of the parser's exception as it tests any other.)
\<close>

theorem parse_failure_is_reraised:
  assumes "int k < max_retries"
    and "\<forall>j<k. sleeps sleep base_delay j"
    and "\<forall>j<k. \<exists>e'. llm j (build_prompt code) = Inl e' \<and> is_rate_limit (exn_msg e')"
    and "llm k (build_prompt code) = Inr raw_content"
    and "parse (clean_json_string raw_content) = Inl e"
    and "\<not> is_rate_limit (exn_msg e)"
  shows "analyze_code_chunk parse llm sleep code max_retries base_delay
           = (Inl e, concat (map (retry_round code base_delay) [0..<k]) @ [Invoke (build_prompt code)])
         \<and> sync_step kn (chunk_info, Inl e)
             = Inr (kn\<lparr>notes_of := notes_of kn @ [tagged chunk_info ''notes'' (llm_error_text e)]\<rparr>)
         \<and> process_chunk_with_limit chunk_info (Inl e)
             = Inr [typed chunk_info ''notes'' (llm_error_text e)]"
proof (intro conjI)
  show "analyze_code_chunk parse llm sleep code max_retries base_delay
          = (Inl e, concat (map (retry_round code base_delay) [0..<k]) @ [Invoke (build_prompt code)])"
  proof (rule analyze_code_chunk_reraise_at [OF assms(1)])
    fix j assume "j < k"
    with assms(2) show "sleeps sleep base_delay j" by simp
  next
    fix j assume "j < k"
    with assms(3) obtain e' where "llm j (build_prompt code) = Inl e'" "is_rate_limit (exn_msg e')"
      by blast
    then show "\<exists>e'. try_body parse (llm j (build_prompt code)) = Inl e' \<and> is_rate_limit (exn_msg e')"
      by (simp add: try_body_def)
  next
    show "try_body parse (llm k (build_prompt code)) = Inl e"
      using assms(4,5) by (simp add: try_body_def)
  next
    show "\<not> is_rate_limit (exn_msg e)" by (rule assms(6))
  qed
next
  show "sync_step kn (chunk_info, Inl e)
          = Inr (kn\<lparr>notes_of := notes_of kn @ [tagged chunk_info ''notes'' (llm_error_text e)]\<rparr>)"
    by (simp add: sync_step_def)
next
  show "process_chunk_with_limit chunk_info (Inl e)
          = Inr [typed chunk_info ''notes'' (llm_error_text e)]"
    by (simp add: process_chunk_with_limit_def)
qed

theorem parse_failure_is_reraised_witness:
  "analyze_code_chunk simple_json_output_parser (limited_then_answers ''{not json}'') time_sleep
       ''x = 1'' 5 5
     = (Inl (Exn ''OutputParserException'' ''Invalid json output: {not json}''),
        [Invoke (build_prompt ''x = 1''), Sleep 5, Invoke (build_prompt ''x = 1'')])
   \<and> sync_step (empty_knowledge (JObj []))
         (chunk_a, Inl (Exn ''OutputParserException'' ''Invalid json output: {not json}''))
       = Inr \<lparr>project_info = JObj [], overview = [], methods = [], complexity = [],
              notes_of = [JObj [(''file'', JStr ''a.py''), (''chunk_index'', JNum 0),
                (''notes'', JStr ''LLM error: OutputParserException: Invalid json output: {not json}'')]]\<rparr>
   \<and> process_chunk_with_limit chunk_a
         (Inl (Exn ''OutputParserException'' ''Invalid json output: {not json}''))
       = Inr [JObj [(''type'', JStr ''notes''), (''file'', JStr ''a.py''), (''chunk_index'', JNum 0),
                (''notes'', JStr ''LLM error: OutputParserException: Invalid json output: {not json}'')]]"
proof -
  let ?e = "Exn ''OutputParserException'' ''Invalid json output: {not json}''"
  let ?llm = "limited_then_answers ''{not json}''"
  have h1: "int 1 < 5" by simp
  have h2: "\<forall>j<1. sleeps time_sleep 5 j"
    using sleeps_default [of 0] by (simp add: default_max_retries_def default_base_delay_def)
  have h3: "\<forall>j<1. \<exists>e'. ?llm j (build_prompt ''x = 1'') = Inl e' \<and> is_rate_limit (exn_msg e')"
    using rate_limit_429 by (simp add: limited_then_answers_def)
  have h4: "?llm 1 (build_prompt ''x = 1'') = Inr ''{not json}''"
    by (simp add: limited_then_answers_def)
  have h5: "simple_json_output_parser (clean_json_string ''{not json}'') = Inl ?e"
    by (rule parser_rejects_not_json)
  have h6: "\<not> is_rate_limit (exn_msg ?e)"
    using not_rate_limit_not_json by simp
  note main = parse_failure_is_reraised
    [where parse = simple_json_output_parser and kn = "empty_knowledge (JObj [])"
       and chunk_info = chunk_a and llm = "?llm" and code = "''x = 1''"
       and k = 1 and max_retries = 5 and base_delay = 5 and e = "?e"
       and raw_content = "''{not json}''" and sleep = time_sleep, OF h1 h2 h3 h4 h5 h6]
  have a: "analyze_code_chunk simple_json_output_parser ?llm time_sleep ''x = 1'' 5 5
     = (Inl ?e, [Invoke (build_prompt ''x = 1''), Sleep 5, Invoke (build_prompt ''x = 1'')])"
    using main [THEN conjunct1] by (simp add: retry_round_def)
  have b: "sync_step (empty_knowledge (JObj [])) (chunk_a, Inl ?e)
       = Inr \<lparr>project_info = JObj [], overview = [], methods = [], complexity = [],
              notes_of = [JObj [(''file'', JStr ''a.py''), (''chunk_index'', JNum 0),
                (''notes'', JStr ''LLM error: OutputParserException: Invalid json output: {not json}'')]]\<rparr>"
    using main [THEN conjunct2, THEN conjunct1]
    by (simp add: empty_knowledge_def tagged_def llm_error_text_def chunk_a_def)
  have c: "process_chunk_with_limit chunk_a (Inl ?e)
       = Inr [JObj [(''type'', JStr ''notes''), (''file'', JStr ''a.py''), (''chunk_index'', JNum 0),
                (''notes'', JStr ''LLM error: OutputParserException: Invalid json output: {not json}'')]]"
    using main [THEN conjunct2, THEN conjunct2]
    by (simp add: typed_def llm_error_text_def chunk_a_def)
  from a b c show ?thesis by blast
qed

text \<open>
  C4 as the spec states it fails twice. A response that is not JSON makes
  \<open>analyze_code_chunk\<close> raise the parser's exception, not return a failure value; and when
  the rejected text holds \<open>429\<close>, the parser's message holds it too, the handler takes
  it for rate limiting, and the analysis sleeps and calls again until the retries are
  used up.
\<close>

theorem parse_failure_not_returned_and_retried:
  "analyze_code_chunk simple_json_output_parser (answers ''{not json}'') time_sleep ''x = 1''
       default_max_retries default_base_delay
     = (Inl (Exn ''OutputParserException'' ''Invalid json output: {not json}''),
        [Invoke (build_prompt ''x = 1'')])
   \<and> analyze_code_chunk simple_json_output_parser (answers ''{429}'') time_sleep ''x = 1''
       default_max_retries default_base_delay
     = (Inr (JObj [(''error'', JStr ''Rate limit exceeded after 5 retries.'')]),
        concat (map (retry_round ''x = 1'' 5) [0, 1, 2, 3, 4]))"
proof
  have "analyze_code_chunk simple_json_output_parser (answers ''{not json}'') time_sleep ''x = 1''
          default_max_retries default_base_delay
        = (Inl (Exn ''OutputParserException'' ''Invalid json output: {not json}''),
           concat (map (retry_round ''x = 1'' default_base_delay) [0..<0]) @ [Invoke (build_prompt ''x = 1'')])"
    by (rule analyze_code_chunk_reraise_at)
       (simp_all add: default_max_retries_def try_body_def
          answers_def parser_rejects_not_json not_rate_limit_not_json)
  then show "analyze_code_chunk simple_json_output_parser (answers ''{not json}'') time_sleep ''x = 1''
       default_max_retries default_base_delay
     = (Inl (Exn ''OutputParserException'' ''Invalid json output: {not json}''),
        [Invoke (build_prompt ''x = 1'')])"
    by simp
next
  have up: "[0..<nat default_max_retries] = [0, 1, 2, 3, 4]"
    by (simp add: default_max_retries_def upt_conv_Cons)
  have msg: "rate_limit_exceeded default_max_retries
               = JObj [(''error'', JStr ''Rate limit exceeded after 5 retries.'')]"
    by (simp add: rate_limit_exceeded_def default_max_retries_def str_int_def digit_char_def)
  have "analyze_code_chunk simple_json_output_parser (answers ''{429}'') time_sleep ''x = 1''
          default_max_retries default_base_delay
        = (Inr (rate_limit_exceeded default_max_retries),
           concat (map (retry_round ''x = 1'' default_base_delay) [0..<nat default_max_retries]))"
  proof (rule analyze_code_chunk_all_limited)
    fix j assume "int j < default_max_retries"
    then show "sleeps time_sleep default_base_delay j" by (rule sleeps_default)
  qed (simp_all add: default_max_retries_def try_body_def
          answers_def parser_rejects_429 rate_limit_in_parse_message)
  then show "analyze_code_chunk simple_json_output_parser (answers ''{429}'') time_sleep ''x = 1''
       default_max_retries default_base_delay
     = (Inr (JObj [(''error'', JStr ''Rate limit exceeded after 5 retries.'')]),
        concat (map (retry_round ''x = 1'' 5) [0, 1, 2, 3, 4]))"
    by (simp add: up msg default_base_delay_def)
qed

section \<open>Claims on the README step and on empty input\<close>

lemma project_summary_total: "\<exists>info. project_summary env = Inr info"
  by (simp add: project_summary_def split: sum.split)

text \<open>
  C7, as the code has it. The README step never raises. Without a README it returns the
  empty object (\<open>project_info = {}\<close> in the source), not null. With a README, an exception
  \<open>e\<close> from reading the file, from the oracle call or from the parser gives the object
  with the one key \<open>readme_error\<close> and the message of \<open>e\<close>, whatever that message is.
\<close>

theorem project_summary_never_raises:
  "(\<exists>info. project_summary env = Inr info)
   \<and> (env_readme env = No_readme \<longrightarrow> project_summary env = Inr (JObj []))
   \<and> (\<forall>e. env_readme env = Unreadable e \<longrightarrow>
          project_summary env = Inr (JObj [(''readme_error'', JStr (exn_msg e))]))
   \<and> (\<forall>readme_content e.
          env_readme env = Readme readme_content \<longrightarrow>
          env_llm env Readme_call (readme_prompt readme_content) = Inl e \<longrightarrow>
          project_summary env = Inr (JObj [(''readme_error'', JStr (exn_msg e))]))
   \<and> (\<forall>readme_content content e.
          env_readme env = Readme readme_content \<longrightarrow>
          env_llm env Readme_call (readme_prompt readme_content) = Inr content \<longrightarrow>
          env_parser env content = Inl e \<longrightarrow>
          project_summary env = Inr (JObj [(''readme_error'', JStr (exn_msg e))]))"
  by (simp add: project_summary_def readme_try_def split: sum.split)

theorem project_summary_never_raises_witness:
  "project_summary env_plain = Inr (JObj [])
   \<and> project_summary env_readme_refused = Inr (JObj [(''readme_error'', JStr ''Connection error.'')])"
proof -
  have a: "project_summary env_plain = Inr (JObj [])"
    using project_summary_never_raises [of env_plain, THEN conjunct2, THEN conjunct1]
    by (simp add: env_plain_def)
  have b: "project_summary env_readme_refused
             = Inr (JObj [(''readme_error'', JStr ''Connection error.'')])"
    using project_summary_never_raises [of env_readme_refused, THEN conjunct2, THEN conjunct2,
        THEN conjunct2, THEN conjunct1, rule_format,
        of "''# Project''" "Exn ''APIConnectionError'' ''Connection error.''"]
    by (simp add: env_readme_refused_def)
  from a b show ?thesis by blast
qed

text \<open>
  C7 as the spec states it fails: without a README the step returns the empty object and
  not null, and an exception with an empty message gives an empty \<open>readme_error\<close>.
\<close>

theorem project_summary_not_null:
  "project_summary env_plain = Inr (JObj [])
   \<and> project_summary env_plain \<noteq> Inr JNull
   \<and> project_summary env_readme_timeout = Inr (JObj [(''readme_error'', JStr [])])"
  by (simp add: project_summary_def readme_try_def env_plain_def env_readme_timeout_def)

text \<open>
  C8, as the code has it. With the two settings present and the repository cloned, an
  empty list of chunks makes \<open>main_async\<close> return at once, without an error: it does not
  reach the extractor, and no aggregate is made or written, whatever the environment.
\<close>

theorem empty_input_returns_early:
  assumes "\<not> unset repo_url" and "\<not> unset target_dir"
    and "read_and_chunk_codebase codebase_path = Inr []"
  shows "main_async repo_url target_dir (Inr codebase_path) read_and_chunk_codebase env order json_dump
           = Inr No_chunks"
  using assms by (simp add: main_async_def)

theorem empty_input_returns_early_witness:
  "main_async (Some ''https://example.org/repo.git'') (Some ''target'') (Inr ''target'')
       no_code_files env_readme_refused [] dump_ok = Inr No_chunks"
proof -
  have h1: "\<not> unset (Some ''https://example.org/repo.git'')" by (simp add: unset_def)
  have h2: "\<not> unset (Some ''target'')" by (simp add: unset_def)
  have h3: "no_code_files ''target'' = Inr []" by (simp add: no_code_files_def)
  show ?thesis
    using empty_input_returns_early
      [where env = env_readme_refused and order = "[]" and json_dump = dump_ok
         and read_and_chunk_codebase = no_code_files and codebase_path = "''target''",
       OF h1 h2 h3] .
qed

text \<open>
  C8 as the spec states it fails: on an empty list of chunks \<open>main_async\<close> returns no
  aggregate at all, so there is none with four empty sequences and a null
  \<open>project_info\<close>.
\<close>

theorem empty_input_gives_no_aggregate:
  "main_async (Some ''https://example.org/repo.git'') (Some ''target'') (Inr ''target'')
       no_code_files env_plain [] dump_ok = Inr No_chunks
   \<and> (\<forall>k. main_async (Some ''https://example.org/repo.git'') (Some ''target'') (Inr ''target'')
              no_code_files env_plain [] dump_ok \<noteq> Inr (Saved k))"
  by (simp add: main_async_def unset_def no_code_files_def)

section \<open>Properties of the aggregation\<close>

lemma as_completed_mset: "mset (as_completed order futs) = mset futs"
proof (cases "sort order = [0..<length futs]")
  case False
  then show ?thesis by (simp add: as_completed_def)
next
  case True
  have "mset order = mset (sort order)" by simp
  also have "\<dots> = mset [0..<length futs]" using True by simp
  finally have "image_mset (\<lambda>i. futs ! i) (mset order) = image_mset (\<lambda>i. futs ! i) (mset [0..<length futs])"
    by simp
  then have "mset (map (\<lambda>i. futs ! i) order) = mset (map (\<lambda>i. futs ! i) [0..<length futs])"
    by simp
  then show ?thesis using True by (simp add: as_completed_def map_nth)
qed

lemma as_completed_set: "set (as_completed order futs) = set futs"
  using as_completed_mset [of order futs] by (metis set_mset_mset)

lemma add_methods_append: "add_methods (add_methods known a) b = add_methods known (a @ b)"
  by (induction a arbitrary: known) simp_all

lemma add_methods_prefix: "set known \<subseteq> set (add_methods known ms)"
proof (induction ms arbitrary: known)
  case Nil
  then show ?case by simp
next
  case (Cons a ms)
  have "set known \<subseteq> set (if py_in a known then known else known @ [a])" by auto
  also have "\<dots> \<subseteq> set (add_methods (if py_in a known then known else known @ [a]) ms)"
    by (rule Cons.IH)
  finally show ?case by simp
qed

lemma add_methods_subset: "set (add_methods known ms) \<subseteq> set known \<union> set ms"
proof (induction ms arbitrary: known)
  case Nil
  then show ?case by simp
next
  case (Cons a ms)
  have "set (add_methods (if py_in a known then known else known @ [a]) ms)
          \<subseteq> set (if py_in a known then known else known @ [a]) \<union> set ms"
    by (rule Cons.IH)
  also have "\<dots> \<subseteq> set known \<union> set (a # ms)" by auto
  finally show ?case by simp
qed

lemma sync_step_delta:
  "sync_step k fut =
     (case delta fut of
        Inl e \<Rightarrow> Inl e
      | Inr d \<Rightarrow>
          Inr (k\<lparr>overview := overview k @ overview d,
                  methods := add_methods (methods k) (fut_methods fut),
                  complexity := complexity k @ complexity d,
                  notes_of := notes_of k @ notes_of d\<rparr>))"
  by (auto simp: delta_def sync_step_def collect_def fut_methods_def empty_knowledge_def Let_def
      split: sum.splits json.splits option.splits)


lemma sync_loop_raises: "\<exists>fut\<in>set futs. isl (delta fut) \<Longrightarrow> isl (sync_loop k futs)"
proof (induction futs arbitrary: k)
  case Nil
  then show ?case by simp
next
  case (Cons fut futs)
  show ?case
  proof (cases "delta fut")
    case (Inl e)
    then show ?thesis by (simp add: sync_step_delta)
  next
    case (Inr d)
    with Cons.prems have "\<exists>f\<in>set futs. isl (delta f)" by auto
    then show ?thesis using Cons.IH Inr by (simp add: sync_step_delta)
  qed
qed

lemma sync_loop_returns:
  "\<forall>fut\<in>set futs. \<not> isl (delta fut) \<Longrightarrow> sync_loop k futs = Inr (grown k futs)"
proof (induction futs arbitrary: k)
  case Nil
  then show ?case by (simp add: grown_def)
next
  case (Cons fut futs)
  then obtain d where d: "delta fut = Inr d" by (cases "delta fut") auto
  from Cons.prems have rest: "\<forall>f\<in>set futs. \<not> isl (delta f)" by simp
  show ?case
    using Cons.IH [OF rest] d
    by (simp add: sync_step_delta grown_def add_methods_append)
qed

lemma mset_concat_map_cong:
  "mset xs = mset ys \<Longrightarrow> mset (concat (map f xs)) = mset (concat (map f ys))"
proof -
  assume a: "mset xs = mset ys"
  have "mset (concat (map f zs)) = sum_mset (image_mset (\<lambda>z. mset (f z)) (mset zs))" for zs
    by (induction zs) simp_all
  with a show ?thesis by simp
qed

lemma py_in_plain:
  assumes "\<forall>m\<in>S. \<forall>m'\<in>S. py_eq m m' \<longrightarrow> m = m'" and "a \<in> S" and "set known \<subseteq> S"
  shows "py_in a known \<longleftrightarrow> a \<in> set known"
  using assms by (auto simp: py_in_def list_ex_iff)

lemma add_methods_plain:
  assumes "\<forall>m\<in>S. \<forall>m'\<in>S. py_eq m m' \<longrightarrow> m = m'"
  shows "set known \<subseteq> S \<Longrightarrow> set ms \<subseteq> S \<Longrightarrow> distinct known \<Longrightarrow>
           distinct (add_methods known ms) \<and> set (add_methods known ms) = set known \<union> set ms"
proof (induction ms arbitrary: known)
  case Nil
  then show ?case by simp
next
  case (Cons a ms)
  from Cons.prems have a: "a \<in> S" and ms: "set ms \<subseteq> S" by simp_all
  have mem: "py_in a known \<longleftrightarrow> a \<in> set known"
    using assms a Cons.prems(1) by (rule py_in_plain)
  show ?case
  proof (cases "a \<in> set known")
    case True
    with mem have "add_methods known (a # ms) = add_methods known ms" by simp
    moreover have "distinct (add_methods known ms)
        \<and> set (add_methods known ms) = set known \<union> set ms"
      using Cons.prems(1) ms Cons.prems(3) by (rule Cons.IH)
    ultimately show ?thesis using True by auto
  next
    case False
    with mem have "add_methods known (a # ms) = add_methods (known @ [a]) ms" by simp
    moreover have "distinct (add_methods (known @ [a]) ms)
        \<and> set (add_methods (known @ [a]) ms) = set (known @ [a]) \<union> set ms"
    proof (rule Cons.IH)
      show "set (known @ [a]) \<subseteq> S" using Cons.prems(1) a by simp
      show "set ms \<subseteq> S" by (rule ms)
      show "distinct (known @ [a])" using Cons.prems(3) False by simp
    qed
    ultimately show ?thesis by auto
  qed
qed

lemma plain_equality_iff:
  "plain_equality ms \<longleftrightarrow> (\<forall>m\<in>set ms. \<forall>m'\<in>set ms. py_eq m m' \<longrightarrow> m = m')"
  by (simp add: plain_equality_def list_all_iff)

lemma grown_same_entries:
  assumes "mset futs = mset futs'"
  shows "same_entries (grown k futs) (grown k futs')"
  using mset_concat_map_cong [OF assms, of "\<lambda>f. overview (projr (delta f))"]
    mset_concat_map_cong [OF assms, of "\<lambda>f. complexity (projr (delta f))"]
    mset_concat_map_cong [OF assms, of "\<lambda>f. notes_of (projr (delta f))"]
  by (simp add: same_entries_def grown_def)

lemma grown_same_content:
  assumes "mset futs = mset futs'" and "methods k = []"
    and "plain_equality (concat (map fut_methods futs))"
  shows "same_content (grown k futs) (grown k futs')"
proof -
  have s: "set futs = set futs'" using assms(1) by (metis set_mset_mset)
  let ?A = "concat (map fut_methods futs)" and ?A' = "concat (map fut_methods futs')"
  have sA: "set ?A' = set ?A" using s by simp
  from assms(3) have plain: "\<forall>m\<in>set ?A. \<forall>m'\<in>set ?A. py_eq m m' \<longrightarrow> m = m'"
    by (simp only: plain_equality_iff)
  have sub: "set ?A' \<subseteq> set ?A" by (simp only: sA subset_refl)
  have 1: "distinct (add_methods [] ?A) \<and> set (add_methods [] ?A) = set [] \<union> set ?A"
    using plain by (rule add_methods_plain) simp_all
  have 2: "distinct (add_methods [] ?A') \<and> set (add_methods [] ?A') = set [] \<union> set ?A'"
    using plain
  proof (rule add_methods_plain)
    show "set ?A' \<subseteq> set ?A" by (rule sub)
  qed simp_all
  from 1 have d1: "distinct (add_methods [] ?A)" by (rule conjunct1)
  from 2 have d2: "distinct (add_methods [] ?A')" by (rule conjunct1)
  from 1 2 sA have "set (add_methods [] ?A) = set (add_methods [] ?A')" by simp
  with set_eq_iff_mset_eq_distinct [OF d1 d2]
  have "mset (add_methods [] ?A) = mset (add_methods [] ?A')" by blast
  then have "mset (methods (grown k futs)) = mset (methods (grown k futs'))"
    using assms(2) by (simp add: grown_def)
  with grown_same_entries [OF assms(1)] show ?thesis by (simp add: same_content_def)
qed

lemma sync_loop_same_outcome:
  assumes "mset futs = mset futs'" and "R (grown k futs) (grown k futs')"
  shows "same_outcome R (sync_loop k futs) (sync_loop k futs')"
proof (cases "\<exists>fut\<in>set futs. isl (delta fut)")
  case True
  moreover have "set futs = set futs'" using assms(1) by (metis set_mset_mset)
  ultimately have "isl (sync_loop k futs)" "isl (sync_loop k futs')"
    using sync_loop_raises by auto
  then show ?thesis by (auto simp: same_outcome_def split: sum.splits)
next
  case False
  moreover have "set futs = set futs'" using assms(1) by (metis set_mset_mset)
  ultimately have "sync_loop k futs = Inr (grown k futs)" "sync_loop k futs' = Inr (grown k futs')"
    using sync_loop_returns by auto
  then show ?thesis using assms(2) by (simp add: same_outcome_def)
qed

lemma gather_raises:
  "\<exists>t\<in>set ts. isl t \<Longrightarrow> isl (gather order ts)"
proof -
  assume "\<exists>t\<in>set ts. isl t"
  then have "\<exists>t\<in>set (as_completed order ts). isl t" by (simp add: as_completed_set)
  then obtain t where "find isl (as_completed order ts) = Some t"
    by (cases "find isl (as_completed order ts)") (auto simp: find_None_iff)
  then show ?thesis by (simp add: gather_def)
qed

lemma gather_returns:
  "\<forall>t\<in>set ts. \<not> isl t \<Longrightarrow> gather order ts = Inr (map projr ts)"
proof -
  assume "\<forall>t\<in>set ts. \<not> isl t"
  then have "\<forall>t\<in>set (as_completed order ts). \<not> isl t" by (simp add: as_completed_set)
  then have "find isl (as_completed order ts) = None" by (simp add: find_None_iff)
  then show ?thesis by (simp add: gather_def)
qed

lemma gather_same_outcome:
  "(case gather order ts of Inl e \<Rightarrow> isl (gather order' ts)
    | Inr rs \<Rightarrow> gather order' ts = Inr rs)"
proof (cases "\<exists>t\<in>set ts. isl t")
  case True
  then have "isl (gather order ts)" "isl (gather order' ts)" using gather_raises by auto
  then show ?thesis by (auto split: sum.splits)
next
  case False
  then have "gather order ts = Inr (map projr ts)" "gather order' ts = Inr (map projr ts)"
    using gather_returns by auto
  then show ?thesis by simp
qed

lemma set_map_filter_eq: "set (List.map_filter f xs) = {y. \<exists>x\<in>set xs. f x = Some y}"
  by (induction xs) (auto split: option.splits)

lemma set_contributions:
  "set (contributions k)
     = {cid. \<exists>e \<in> set (overview k) \<union> set (complexity k) \<union> set (notes_of k). entry_chunk e = Some cid}"
  by (simp add: contributions_def set_map_filter_eq Un_assoc)

lemma contributions_grown:
  "set (contributions (grown k futs))
     = set (contributions k) \<union> (\<Union>f\<in>set futs. set (contributions (projr (delta f))))"
  by (auto simp: set_contributions grown_def)

lemma entry_chunk_tagged:
  "key \<noteq> ''file'' \<Longrightarrow> key \<noteq> ''chunk_index'' \<Longrightarrow>
     entry_chunk (tagged c key v) = Some (chunk_id c)"
  by (simp add: entry_chunk_def tagged_def chunk_id_def)

lemma entry_chunk_typed:
  "key \<noteq> ''file'' \<Longrightarrow> key \<noteq> ''chunk_index'' \<Longrightarrow>
     entry_chunk (typed c key v) = Some (chunk_id c)"
  by (simp add: entry_chunk_def typed_def chunk_id_def)

lemma delta_well_formed:
  assumes "well_formed_sync (snd fut)"
  shows "\<exists>d. delta fut = Inr d
           \<and> set (contributions d) = (if names_sync (snd fut) then {chunk_id (fst fut)} else {})"
proof (cases "snd fut")
  case (Inl e)
  then show ?thesis
    by (auto simp: delta_def sync_step_def set_contributions empty_knowledge_def entry_chunk_tagged
        names_sync_def)
next
  case (Inr result)
  with assms obtain d where d: "result = JObj d"
    by (cases result) (auto simp: well_formed_sync_def)
  show ?thesis
  proof (cases "map_of d ''methods''")
    case None
    then show ?thesis
      using Inr d
      by (auto simp: delta_def sync_step_def collect_def set_contributions empty_knowledge_def
          entry_chunk_tagged names_sync_def has_entry_key_def Let_def split: option.splits)
  next
    case (Some v)
    with assms Inr d obtain ms where ms: "py_iter v = Inr ms"
      by (cases "py_iter v") (auto simp: well_formed_sync_def result_methods_def)
    show ?thesis
      using Inr d Some ms
      by (auto simp: delta_def sync_step_def collect_def set_contributions empty_knowledge_def
          entry_chunk_tagged names_sync_def has_entry_key_def Let_def split: option.splits)
  qed
qed

lemma map_of_dict_set:
  "map_of (dict_set d k v) k' = (if k' = k then Some v else map_of d k')"
  by (induction d) auto

lemma map_of_spread:
  "map_of d t = None \<Longrightarrow>
     map_of (foldl (\<lambda>acc kv. dict_set acc (fst kv) (snd kv)) acc d) t = map_of acc t"
proof (induction d arbitrary: acc)
  case Nil
  then show ?case by simp
next
  case (Cons kv d)
  then have "fst kv \<noteq> t" "map_of d t = None"
    by (cases kv; auto split: if_splits)+
  then show ?case using Cons.IH by (simp add: map_of_dict_set)
qed

lemma method_item_not_counted: "method_fact (JObj d) \<Longrightarrow> \<not> counted (method_item d)"
  by (simp add: method_fact_def counted_def method_item_def map_of_spread)

lemma method_items_facts:
  "list_all method_fact ms \<Longrightarrow>
     \<exists>items. method_items ms = Inr items \<and> (\<forall>item\<in>set items. \<not> counted item)"
proof (induction ms)
  case Nil
  then show ?case by simp
next
  case (Cons m ms)
  then obtain d where d: "m = JObj d" by (cases m) (auto simp: method_fact_def)
  from Cons obtain items where "method_items ms = Inr items" "\<forall>item\<in>set items. \<not> counted item"
    by auto
  with d Cons.prems show ?case by (auto simp: method_item_not_counted)
qed

lemma counted_typed:
  "counted (typed c key v) = (key \<in> {''overview'', ''complexity'', ''notes''})"
  by (auto simp: counted_def typed_def)

lemma process_well_formed:
  assumes "well_formed_async outcome"
  shows "\<exists>items. process_chunk_with_limit c outcome = Inr items
           \<and> {cid. \<exists>item\<in>set items. counted item \<and> entry_chunk item = Some cid}
               = (if names_async outcome then {chunk_id c} else {})"
proof (cases outcome)
  case (Inl e)
  then show ?thesis
    by (auto simp: process_chunk_with_limit_def counted_typed entry_chunk_typed names_async_def)
next
  case (Inr result)
  with assms obtain d where d: "result = JObj d"
    by (cases result) (auto simp: well_formed_async_def)
  show ?thesis
  proof (cases "map_of d ''methods''")
    case None
    then show ?thesis
      using Inr d
      by (auto simp: process_chunk_with_limit_def result_items_def counted_typed entry_chunk_typed
          names_async_def has_entry_key_def result_methods_def Let_def split: option.splits)
  next
    case (Some v)
    with assms Inr d obtain ms where ms: "py_iter v = Inr ms" and facts: "list_all method_fact ms"
      by (cases "py_iter v") (auto simp: well_formed_async_def result_methods_def)
    from method_items_facts [OF facts] obtain items
      where items: "method_items ms = Inr items" "\<forall>item\<in>set items. \<not> counted item"
      by blast
    have empty: "items = [] \<longleftrightarrow> ms = []"
      using items(1) by (cases ms) (auto split: json.splits sum.splits)
    show ?thesis
    proof (cases "has_entry_key d")
      case True
      then show ?thesis
        using Inr d Some ms items
        by (auto simp: process_chunk_with_limit_def result_items_def counted_typed entry_chunk_typed
            names_async_def has_entry_key_def result_methods_def Let_def split: option.splits)
    next
      case False
      then have none: "map_of d ''overview'' = None" "map_of d ''complexity'' = None"
        "map_of d ''notes'' = None"
        by (simp_all add: has_entry_key_def)
      show ?thesis
      proof (cases "ms = []")
        case True
        with empty have "items = []" by simp
        then show ?thesis
          using Inr d Some ms items none True
          by (simp add: process_chunk_with_limit_def result_items_def counted_typed entry_chunk_typed
              names_async_def has_entry_key_def result_methods_def)
      next
        case nonempty: False
        with empty have "items \<noteq> []" by simp
        then show ?thesis
          using Inr d Some ms items none nonempty False
          by (auto simp: process_chunk_with_limit_def result_items_def
              names_async_def result_methods_def)
      qed
    qed
  qed
qed

lemma contributions_place_item:
  "set (contributions (place_item k item))
     = set (contributions k) \<union> {cid. counted item \<and> entry_chunk item = Some cid}"
  by (cases item)
     (auto simp: place_item_def counted_def set_contributions split: option.splits)

lemma contributions_place_items:
  "set (contributions (foldl place_item k items))
     = set (contributions k) \<union> {cid. \<exists>item\<in>set items. counted item \<and> entry_chunk item = Some cid}"
proof (induction items arbitrary: k)
  case Nil
  then show ?case by simp
next
  case (Cons item items)
  show ?case
    unfolding foldl_Cons Cons.IH contributions_place_item by auto
qed

section \<open>Evaluating the extractors\<close>

lemma chunk_outcome_async_first_answer:
  assumes "env_llm env (Chunk_call i 0) (build_prompt (chunk c)) = Inr raw"
    and "env_parser env (clean_json_string raw) = Inr v"
  shows "chunk_outcome_async env i c = Inr v"
  using assms
  by (simp add: chunk_outcome_async_def analyze_code_chunk_async_def analyze_loop_async_parsed
      default_max_retries_def try_body_def)

lemma chunk_outcome_async_first_refused:
  assumes "env_llm env (Chunk_call i 0) (build_prompt (chunk c)) = Inl e"
    and "\<not> is_rate_limit (exn_msg e)"
  shows "chunk_outcome_async env i c = Inl e"
  using assms
  by (simp add: chunk_outcome_async_def analyze_code_chunk_async_def analyze_loop_async_reraise
      default_max_retries_def try_body_def)

lemma chunk_outcome_first_answer:
  assumes "env_llm env (Chunk_call i 0) (build_prompt (chunk c)) = Inr raw"
    and "env_parser env (clean_json_string raw) = Inr v"
  shows "chunk_outcome env i c = Inr v"
  using assms
  by (simp add: chunk_outcome_def analyze_code_chunk_def analyze_loop_parsed
      default_max_retries_def try_body_def)

lemma chunk_outcome_first_refused:
  assumes "env_llm env (Chunk_call i 0) (build_prompt (chunk c)) = Inl e"
    and "\<not> is_rate_limit (exn_msg e)"
  shows "chunk_outcome env i c = Inl e"
  using assms
  by (simp add: chunk_outcome_def analyze_code_chunk_def analyze_loop_reraise
      default_max_retries_def try_body_def)

lemma faiss_answering: "env_faiss (env_answering raw) cs = None"
  by (simp add: env_answering_def)

lemma summary_answering: "project_summary (env_answering raw) = Inr (JObj [])"
  by (simp add: project_summary_def readme_try_def env_answering_def)

lemma parse_one_method:
  "simple_json_output_parser (clean_json_string one_method)
     = Inr (JObj [(''methods'', JArr [JObj [(''name'', JStr ''f''), (''signature'', JStr ''f()''),
                                          (''description'', JStr ''d'')]])])"
proof -
  have c: "clean_json_string one_method = one_method"
    by (simp add: one_method_def clean_json_string_def drop_before_brace_def drop_after_brace_def
        strip_def isspace_def)
  have s: "strip one_method = one_method"
    by (simp add: one_method_def strip_def isspace_def)
  have "json_loads one_method
     = Some (JObj [(''methods'', JArr [JObj [(''name'', JStr ''f''), (''signature'', JStr ''f()''),
                                          (''description'', JStr ''d'')]])])"
    by (simp add: one_method_def json_loads_def skip_ws_def is_json_ws_def dq_def backslash_def)
  with c s show ?thesis by (simp add: simple_json_output_parser_def)
qed

lemma parse_no_methods:
  "simple_json_output_parser (clean_json_string no_methods) = Inr (JObj [(''methods'', JArr [])])"
proof -
  have c: "clean_json_string no_methods = no_methods"
    by (simp add: no_methods_def clean_json_string_def drop_before_brace_def drop_after_brace_def
        strip_def isspace_def)
  have s: "strip no_methods = no_methods"
    by (simp add: no_methods_def strip_def isspace_def)
  have "json_loads no_methods = Some (JObj [(''methods'', JArr [])])"
    by (simp add: no_methods_def json_loads_def skip_ws_def is_json_ws_def dq_def backslash_def)
  with c s show ?thesis by (simp add: simple_json_output_parser_def)
qed

lemma parse_full_answer:
  "simple_json_output_parser (clean_json_string full_answer)
     = Inr (JObj [(''overview'', JStr ''x''), (''methods'', JArr [JObj [(''name'', JStr ''f'')]]),
                  (''complexity'', JStr ''low''), (''notes'', JStr [])])"
proof -
  have c: "clean_json_string full_answer = full_answer"
    by (simp add: full_answer_def clean_json_string_def drop_before_brace_def drop_after_brace_def
        strip_def isspace_def)
  have s: "strip full_answer = full_answer"
    by (simp add: full_answer_def strip_def isspace_def)
  have "json_loads full_answer
     = Some (JObj [(''overview'', JStr ''x''), (''methods'', JArr [JObj [(''name'', JStr ''f'')]]),
                   (''complexity'', JStr ''low''), (''notes'', JStr [])])"
    by (simp add: full_answer_def json_loads_def skip_ws_def is_json_ws_def dq_def backslash_def)
  with c s show ?thesis by (simp add: simple_json_output_parser_def)
qed

lemma outcome_one_method:
  "chunk_outcome (env_answering one_method) i c
     = Inr (JObj [(''methods'', JArr [JObj [(''name'', JStr ''f''), (''signature'', JStr ''f()''),
                                          (''description'', JStr ''d'')]])])"
  by (rule chunk_outcome_first_answer [where raw = one_method])
     (simp_all add: env_answering_def parse_one_method)

lemma outcome_no_methods:
  "chunk_outcome (env_answering no_methods) i c = Inr (JObj [(''methods'', JArr [])])"
  by (rule chunk_outcome_first_answer [where raw = no_methods])
     (simp_all add: env_answering_def parse_no_methods)

lemma outcome_one_method_async:
  "chunk_outcome_async (env_answering one_method) i c
     = Inr (JObj [(''methods'', JArr [JObj [(''name'', JStr ''f''), (''signature'', JStr ''f()''),
                                          (''description'', JStr ''d'')]])])"
  by (rule chunk_outcome_async_first_answer [where raw = one_method])
     (simp_all add: env_answering_def parse_one_method)

text \<open>
  C5. The asynchronous extractor appends every item of type \<open>methods\<close> to the list without
  the test that the synchronous one makes. Two chunks whose answers describe the same
  method: the aggregate of \<open>extract_async\<close> holds the method twice, the one of \<open>extract\<close>
  holds it once.
\<close>

theorem extract_async_keeps_duplicate_methods:
  "extract_async (env_answering one_method) 1 [0, 1] [chunk_a, chunk_b]
     = Inr \<lparr>project_info = JObj [], overview = [],
            methods = [JObj [(''type'', JStr ''methods''), (''name'', JStr ''f''),
                             (''signature'', JStr ''f()''), (''description'', JStr ''d'')],
                       JObj [(''type'', JStr ''methods''), (''name'', JStr ''f''),
                             (''signature'', JStr ''f()''), (''description'', JStr ''d'')]],
            complexity = [], notes_of = []\<rparr>
   \<and> extract_sync (env_answering one_method) 1 [0, 1] [chunk_a, chunk_b]
     = Inr \<lparr>project_info = JObj [], overview = [],
            methods = [JObj [(''name'', JStr ''f''), (''signature'', JStr ''f()''),
                             (''description'', JStr ''d'')]],
            complexity = [], notes_of = []\<rparr>"
proof
  show "extract_async (env_answering one_method) 1 [0, 1] [chunk_a, chunk_b]
     = Inr \<lparr>project_info = JObj [], overview = [],
            methods = [JObj [(''type'', JStr ''methods''), (''name'', JStr ''f''),
                             (''signature'', JStr ''f()''), (''description'', JStr ''d'')],
                       JObj [(''type'', JStr ''methods''), (''name'', JStr ''f''),
                             (''signature'', JStr ''f()''), (''description'', JStr ''d'')]],
            complexity = [], notes_of = []\<rparr>"
    by (simp add: extract_async_def faiss_answering summary_answering tasks_def enumerate_eq_zip
        upt_conv_Cons outcome_one_method_async process_chunk_with_limit_def
        result_items_def method_item_def gather_def as_completed_def
        empty_knowledge_def place_item_def)
  show "extract_sync (env_answering one_method) 1 [0, 1] [chunk_a, chunk_b]
     = Inr \<lparr>project_info = JObj [], overview = [],
            methods = [JObj [(''name'', JStr ''f''), (''signature'', JStr ''f()''),
                             (''description'', JStr ''d'')]],
            complexity = [], notes_of = []\<rparr>"
    by (simp add: extract_sync_def faiss_answering summary_answering submit_all_def enumerate_eq_zip
        upt_conv_Cons outcome_one_method sync_step_def collect_def py_in_def
        as_completed_def empty_knowledge_def)
qed

lemma set_enumerate_nth: "set (enumerate 0 cs) = {(i, cs ! i) | i. i < length cs}"
  by (auto simp: in_set_enumerate_eq)

lemma in_set_mapE: "y \<in> set (map h xs) \<Longrightarrow> \<exists>p\<in>set xs. y = h p"
  by auto

lemma submit_all_map:
  "submit_all env cs = map (\<lambda>p. (snd p, chunk_outcome env (fst p) (snd p))) (enumerate 0 cs)"
  by (simp add: submit_all_def case_prod_unfold)

lemma tasks_map:
  "tasks env cs
     = map (\<lambda>p. process_chunk_with_limit (snd p) (chunk_outcome_async env (fst p) (snd p)))
         (enumerate 0 cs)"
  by (simp add: tasks_def case_prod_unfold)

lemma set_submit_all:
  "set (submit_all env cs) = {(cs ! i, chunk_outcome env i (cs ! i)) | i. i < length cs}"
proof -
  have "set (submit_all env cs)
          = (\<lambda>p. (snd p, chunk_outcome env (fst p) (snd p))) ` {(i, cs ! i) | i. i < length cs}"
    by (simp only: submit_all_map set_map set_enumerate_nth)
  also have "\<dots> = {(cs ! i, chunk_outcome env i (cs ! i)) | i. i < length cs}"
    by (force simp: image_iff)
  finally show ?thesis .
qed

lemma sync_loop_names:
  assumes "\<forall>fut\<in>set futs. well_formed_sync (snd fut)"
  shows "sync_loop k futs = Inr (grown k futs)"
    and "set (contributions (grown k futs))
           = set (contributions k) \<union> {chunk_id (fst fut) | fut. fut \<in> set futs \<and> names_sync (snd fut)}"
proof -
  have d: "\<exists>d. delta fut = Inr d
             \<and> set (contributions d) = (if names_sync (snd fut) then {chunk_id (fst fut)} else {})"
    if "fut \<in> set futs" for fut
    using assms that delta_well_formed by blast
  have "\<forall>fut\<in>set futs. \<not> isl (delta fut)"
  proof
    fix fut assume "fut \<in> set futs"
    from d [OF this] obtain dd where "delta fut = Inr dd" by blast
    then show "\<not> isl (delta fut)" by simp
  qed
  then show "sync_loop k futs = Inr (grown k futs)"
    by (rule sync_loop_returns)
  have "(\<Union>f\<in>set futs. set (contributions (projr (delta f))))
          = (\<Union>f\<in>set futs. if names_sync (snd f) then {chunk_id (fst f)} else {})"
  proof (rule SUP_cong [OF refl])
    fix f assume "f \<in> set futs"
    from d [OF this] obtain dd where "delta f = Inr dd"
      "set (contributions dd) = (if names_sync (snd f) then {chunk_id (fst f)} else {})"
      by blast
    then show "set (contributions (projr (delta f)))
                 = (if names_sync (snd f) then {chunk_id (fst f)} else {})"
      by simp
  qed
  also have "\<dots> = {chunk_id (fst fut) | fut. fut \<in> set futs \<and> names_sync (snd fut)}"
    by (force split: if_splits)
  finally show "set (contributions (grown k futs))
      = set (contributions k) \<union> {chunk_id (fst fut) | fut. fut \<in> set futs \<and> names_sync (snd fut)}"
    by (simp only: contributions_grown)
qed

lemma sync_names_every_chunk:
  assumes "\<forall>i<length cs. well_formed_sync (chunk_outcome env i (cs ! i))"
  shows "\<exists>k. sync_loop (empty_knowledge info) (as_completed order (submit_all env cs)) = Inr k
           \<and> set (contributions k)
               = {chunk_id (cs ! i) | i. i < length cs \<and> names_sync (chunk_outcome env i (cs ! i))}"
proof -
  let ?futs = "as_completed order (submit_all env cs)"
  have sf: "set ?futs = {(cs ! i, chunk_outcome env i (cs ! i)) | i. i < length cs}"
    by (simp only: as_completed_set set_submit_all)
  have wf: "\<forall>fut\<in>set ?futs. well_formed_sync (snd fut)"
    unfolding sf using assms by auto
  have e: "set (contributions (empty_knowledge info)) = {}"
    by (simp add: contributions_def empty_knowledge_def)
  have "{chunk_id (fst fut) | fut. fut \<in> set ?futs \<and> names_sync (snd fut)}
          = {chunk_id (cs ! i) | i. i < length cs \<and> names_sync (chunk_outcome env i (cs ! i))}"
    unfolding sf by auto
  then have "set (contributions (grown (empty_knowledge info) ?futs))
               = {chunk_id (cs ! i) | i. i < length cs \<and> names_sync (chunk_outcome env i (cs ! i))}"
    by (simp only: sync_loop_names(2) [OF wf] e Un_empty_left)
  with sync_loop_names(1) [OF wf] show ?thesis by blast
qed

lemma set_counted_ids:
  "set (counted_ids items) = {cid. \<exists>item\<in>set items. counted item \<and> entry_chunk item = Some cid}"
  unfolding counted_ids_def set_map_filter_eq by auto

lemma counted_ids_concat: "set (counted_ids (concat xss)) = (\<Union>xs\<in>set xss. set (counted_ids xs))"
  by (induction xss) (simp_all add: counted_ids_def List.map_filter_def)

lemma gathered_names:
  fixes P :: "'p \<Rightarrow> exn + json list"
  assumes "\<And>p. p \<in> set E \<Longrightarrow>
             \<exists>items. P p = Inr items \<and> set (counted_ids items) = (if N p then {g p} else {})"
  shows "\<forall>t\<in>set (map P E). \<not> isl t"
    and "set (counted_ids (concat (map projr (map P E)))) = {g p | p. p \<in> set E \<and> N p}"
proof -
  show "\<forall>t\<in>set (map P E). \<not> isl t"
  proof
    fix t assume "t \<in> set (map P E)"
    then have "\<exists>p\<in>set E. t = P p" by (rule in_set_mapE)
    then obtain p where p: "p \<in> set E" and t: "t = P p" by blast
    from assms [OF p] obtain items where "P p = Inr items" by blast
    with t show "\<not> isl t" by simp
  qed
  have "set (counted_ids (concat (map projr (map P E))))
          = (\<Union>p\<in>set E. set (counted_ids (projr (P p))))"
    unfolding counted_ids_concat by simp
  also have "\<dots> = (\<Union>p\<in>set E. if N p then {g p} else {})"
  proof (rule SUP_cong [OF refl])
    fix p assume "p \<in> set E"
    from assms [OF this] obtain items
      where "P p = Inr items" "set (counted_ids items) = (if N p then {g p} else {})"
      by blast
    then show "set (counted_ids (projr (P p))) = (if N p then {g p} else {})" by simp
  qed
  also have "\<dots> = {g p | p. p \<in> set E \<and> N p}" by (auto split: if_splits)
  finally show "set (counted_ids (concat (map projr (map P E)))) = {g p | p. p \<in> set E \<and> N p}" .
qed

lemma async_names_every_chunk:
  assumes "\<forall>i<length cs. well_formed_async (chunk_outcome_async env i (cs ! i))"
  shows "\<exists>rs. gather order (tasks env cs) = Inr rs
           \<and> set (contributions (foldl place_item (empty_knowledge info) (concat rs)))
               = {chunk_id (cs ! i) | i. i < length cs
                                        \<and> names_async (chunk_outcome_async env i (cs ! i))}"
proof -
  let ?E = "enumerate 0 cs"
  let ?P = "\<lambda>p. process_chunk_with_limit (snd p) (chunk_outcome_async env (fst p) (snd p))"
  let ?N = "\<lambda>p. names_async (chunk_outcome_async env (fst p) (snd p))"
  have each: "\<exists>items. ?P p = Inr items
                \<and> set (counted_ids items) = (if ?N p then {(chunk_id \<circ> snd) p} else {})"
    if "p \<in> set ?E" for p
  proof -
    from that have "fst p < length cs" "cs ! fst p = snd p"
      by (simp_all add: in_set_enumerate_eq)
    with assms have "well_formed_async (chunk_outcome_async env (fst p) (snd p))" by auto
    from process_well_formed [OF this, of "snd p"] show ?thesis
      by (simp only: set_counted_ids comp_apply)
  qed
  note names = gathered_names [where E = "?E" and P = "?P" and g = "chunk_id \<circ> snd" and N = "?N",
      OF each]
  have g: "gather order (tasks env cs) = Inr (map projr (tasks env cs))"
    unfolding tasks_map using names(1) by (rule gather_returns)
  have e: "set (contributions (empty_knowledge info)) = {}"
    by (simp add: contributions_def empty_knowledge_def)
  have "set (contributions (foldl place_item (empty_knowledge info)
            (concat (map projr (tasks env cs)))))
          = set (counted_ids (concat (map projr (tasks env cs))))"
    unfolding contributions_place_items e set_counted_ids by simp
  also have "\<dots> = {(chunk_id \<circ> snd) p | p. p \<in> set ?E \<and> ?N p}"
    unfolding tasks_map by (rule names(2))
  also have "\<dots> = {chunk_id (cs ! i) | i. i < length cs
                                           \<and> names_async (chunk_outcome_async env i (cs ! i))}"
    unfolding set_enumerate_nth by auto
  finally show ?thesis using g by blast
qed

lemma named_set_facts:
  assumes "distinct (map g cs)" and "S = {g (cs ! i) | i. i < length cs \<and> N i}"
  shows "(\<forall>i<length cs. N i) \<longrightarrow> S = set (map g cs) \<and> card S = length cs"
    and "\<forall>i<length cs. \<not> N i \<longrightarrow> g (cs ! i) \<notin> S"
proof -
  show "(\<forall>i<length cs. N i) \<longrightarrow> S = set (map g cs) \<and> card S = length cs"
  proof
    assume "\<forall>i<length cs. N i"
    then have "S = {g (cs ! i) | i. i < length cs}" using assms(2) by auto
    also have "\<dots> = g ` set cs" by (force simp: in_set_conv_nth)
    also have "\<dots> = set (map g cs)" by simp
    finally have s: "S = set (map g cs)" .
    moreover have "card (set (map g cs)) = length cs"
      using assms(1) distinct_card by fastforce
    ultimately show "S = set (map g cs) \<and> card S = length cs" by simp
  qed
  show "\<forall>i<length cs. \<not> N i \<longrightarrow> g (cs ! i) \<notin> S"
  proof (intro allI impI notI)
    fix i assume i: "i < length cs" and n: "\<not> N i" and "g (cs ! i) \<in> S"
    with assms(2) obtain j where j: "j < length cs" "N j" "g (cs ! j) = g (cs ! i)" by auto
    then have eq: "map g cs ! j = map g cs ! i" using i by simp
    have "(map g cs ! j = map g cs ! i) = (j = i)"
      using assms(1) by (rule nth_eq_iff_index_eq) (use i j(1) in simp_all)
    with eq have "j = i" by blast
    with n j(2) show False by simp
  qed
qed

lemma outcome_full_answer:
  "chunk_outcome (env_answering full_answer) i c
     = Inr (JObj [(''overview'', JStr ''x''), (''methods'', JArr [JObj [(''name'', JStr ''f'')]]),
                  (''complexity'', JStr ''low''), (''notes'', JStr [])])"
  by (rule chunk_outcome_first_answer [where raw = full_answer])
     (simp_all add: env_answering_def parse_full_answer)

lemma outcome_mixed_first:
  "chunk_outcome env_mixed 0 c
     = Inr (JObj [(''overview'', JStr ''x''), (''methods'', JArr [JObj [(''name'', JStr ''f'')]]),
                  (''complexity'', JStr ''low''), (''notes'', JStr [])])"
  by (rule chunk_outcome_first_answer [where raw = full_answer])
     (simp_all add: env_mixed_def parse_full_answer)

lemma outcome_mixed_second:
  "chunk_outcome env_mixed 1 c = Inl (Exn ''APIConnectionError'' ''Connection error.'')"
  by (rule chunk_outcome_first_refused)
     (simp_all add: env_mixed_def not_rate_limit_connection)

lemma outcome_mixed_first_async:
  "chunk_outcome_async env_mixed 0 c
     = Inr (JObj [(''overview'', JStr ''x''), (''methods'', JArr [JObj [(''name'', JStr ''f'')]]),
                  (''complexity'', JStr ''low''), (''notes'', JStr [])])"
  by (rule chunk_outcome_async_first_answer [where raw = full_answer])
     (simp_all add: env_mixed_def parse_full_answer)

lemma outcome_mixed_second_async:
  "chunk_outcome_async env_mixed 1 c = Inl (Exn ''APIConnectionError'' ''Connection error.'')"
  by (rule chunk_outcome_async_first_refused)
     (simp_all add: env_mixed_def not_rate_limit_connection)

lemma outcome_full_then_methods_first:
  "chunk_outcome env_full_then_methods 0 c
     = Inr (JObj [(''overview'', JStr ''x''), (''methods'', JArr [JObj [(''name'', JStr ''f'')]]),
                  (''complexity'', JStr ''low''), (''notes'', JStr [])])"
  by (rule chunk_outcome_first_answer [where raw = full_answer])
     (simp_all add: env_full_then_methods_def parse_full_answer)

lemma outcome_full_then_methods_second:
  "chunk_outcome env_full_then_methods 1 c
     = Inr (JObj [(''methods'', JArr [JObj [(''name'', JStr ''f''), (''signature'', JStr ''f()''),
                                          (''description'', JStr ''d'')]])])"
  by (rule chunk_outcome_first_answer [where raw = one_method])
     (simp_all add: env_full_then_methods_def parse_one_method)

lemma outcome_full_then_methods_first_async:
  "chunk_outcome_async env_full_then_methods 0 c
     = Inr (JObj [(''overview'', JStr ''x''), (''methods'', JArr [JObj [(''name'', JStr ''f'')]]),
                  (''complexity'', JStr ''low''), (''notes'', JStr [])])"
  by (rule chunk_outcome_async_first_answer [where raw = full_answer])
     (simp_all add: env_full_then_methods_def parse_full_answer)

lemma outcome_full_then_methods_second_async:
  "chunk_outcome_async env_full_then_methods 1 c
     = Inr (JObj [(''methods'', JArr [JObj [(''name'', JStr ''f''), (''signature'', JStr ''f()''),
                                          (''description'', JStr ''d'')]])])"
  by (rule chunk_outcome_async_first_answer [where raw = one_method])
     (simp_all add: env_full_then_methods_def parse_one_method)

lemma parse_methods_true:
  "simple_json_output_parser (clean_json_string methods_true)
     = Inr (JObj [(''methods'', JArr [JBool True])])"
proof -
  have c: "clean_json_string methods_true = methods_true"
    by (simp add: methods_true_def clean_json_string_def drop_before_brace_def drop_after_brace_def
        strip_def isspace_def)
  have s: "strip methods_true = methods_true"
    by (simp add: methods_true_def strip_def isspace_def)
  have "json_loads methods_true = Some (JObj [(''methods'', JArr [JBool True])])"
    by (simp add: methods_true_def json_loads_def skip_ws_def is_json_ws_def dq_def backslash_def)
  with c s show ?thesis by (simp add: simple_json_output_parser_def)
qed

lemma parse_methods_one:
  "simple_json_output_parser (clean_json_string methods_one)
     = Inr (JObj [(''methods'', JArr [JNum 1])])"
proof -
  have c: "clean_json_string methods_one = methods_one"
    by (simp add: methods_one_def clean_json_string_def drop_before_brace_def drop_after_brace_def
        strip_def isspace_def)
  have s: "strip methods_one = methods_one"
    by (simp add: methods_one_def strip_def isspace_def)
  have "json_loads methods_one = Some (JObj [(''methods'', JArr [JNum 1])])"
    by (simp add: methods_one_def json_loads_def skip_ws_def is_json_ws_def dq_def backslash_def
        scan_number_def is_digit_def digits_value_def)
  with c s show ?thesis by (simp add: simple_json_output_parser_def)
qed

lemma outcome_true_or_one_first:
  "chunk_outcome env_true_or_one i chunk_a = Inr (JObj [(''methods'', JArr [JBool True])])"
  by (rule chunk_outcome_first_answer [where raw = methods_true])
     (simp_all add: env_true_or_one_def stub_true_or_one_def parse_methods_true)

lemma outcome_true_or_one_second:
  "chunk_outcome env_true_or_one i chunk_b = Inr (JObj [(''methods'', JArr [JNum 1])])"
  by (rule chunk_outcome_first_answer [where raw = methods_one])
     (simp_all add: env_true_or_one_def stub_true_or_one_def parse_methods_one build_prompt_def
        chunk_a_def chunk_b_def)

section \<open>Claims on the aggregate\<close>

text \<open>
  C1, as the code has it. Take one chunk or more, with distinct identities (file and
  index), a vector store that can be built and a positive number of workers, and let every
  chunk's outcome be well formed: an exception, or a dictionary whose \<open>methods\<close>, if
  present, can be iterated and, for the asynchronous extractor, holds only objects
  without a key \<open>type\<close> of their own. Then the extractor returns an aggregate, in whatever order the chunks
  complete, and the chunks named by the entries of \<open>overview\<close>, \<open>complexity\<close> and
  \<open>notes\<close> (failure notes are entries of \<open>notes\<close>) are exactly those whose outcome is an
  exception, or has one of the keys \<open>overview\<close>, \<open>complexity\<close>, \<open>notes\<close>, or, in the
  synchronous extractor, lacks the key \<open>methods\<close>, or, in the asynchronous one, has no
  method (no key \<open>methods\<close>, or an empty one). When every chunk has such an outcome, the
  named chunks are the input chunks: counted per chunk, the contributions are as many as
  the chunks, and none is lost. A chunk with any other outcome, a result with methods and
  none of the three keys, is named by no entry.
\<close>

theorem named_chunks_of_the_aggregate:
  assumes "env_faiss env code_chunks = None" and "0 < max_workers"
    and "distinct (map chunk_id code_chunks)" and "code_chunks \<noteq> []"
  shows "((\<forall>i<length code_chunks. well_formed_sync (chunk_outcome env i (code_chunks ! i))) \<longrightarrow>
            (\<exists>k. extract_sync env max_workers order code_chunks = Inr k
               \<and> set (contributions k)
                   = {chunk_id (code_chunks ! i) | i.
                        i < length code_chunks \<and> names_sync (chunk_outcome env i (code_chunks ! i))}
               \<and> ((\<forall>i<length code_chunks. names_sync (chunk_outcome env i (code_chunks ! i))) \<longrightarrow>
                     set (contributions k) = set (map chunk_id code_chunks)
                     \<and> card (set (contributions k)) = length code_chunks)
               \<and> (\<forall>i<length code_chunks. \<not> names_sync (chunk_outcome env i (code_chunks ! i)) \<longrightarrow>
                     chunk_id (code_chunks ! i) \<notin> set (contributions k))))
         \<and> ((\<forall>i<length code_chunks. well_formed_async (chunk_outcome_async env i (code_chunks ! i))) \<longrightarrow>
            (\<exists>k. extract_async env max_workers order code_chunks = Inr k
               \<and> set (contributions k)
                   = {chunk_id (code_chunks ! i) | i.
                        i < length code_chunks
                        \<and> names_async (chunk_outcome_async env i (code_chunks ! i))}
               \<and> ((\<forall>i<length code_chunks. names_async (chunk_outcome_async env i (code_chunks ! i))) \<longrightarrow>
                     set (contributions k) = set (map chunk_id code_chunks)
                     \<and> card (set (contributions k)) = length code_chunks)
               \<and> (\<forall>i<length code_chunks.
                     \<not> names_async (chunk_outcome_async env i (code_chunks ! i)) \<longrightarrow>
                     chunk_id (code_chunks ! i) \<notin> set (contributions k))))"
proof (intro conjI impI)
  obtain info where info: "project_summary env = Inr info"
    using project_summary_total by blast
  {
    assume wf: "\<forall>i<length code_chunks. well_formed_sync (chunk_outcome env i (code_chunks ! i))"
    let ?N = "\<lambda>i. names_sync (chunk_outcome env i (code_chunks ! i))"
    from sync_names_every_chunk [OF wf, of info order] obtain k
      where k: "sync_loop (empty_knowledge info) (as_completed order (submit_all env code_chunks)) = Inr k"
        "set (contributions k) = {chunk_id (code_chunks ! i) | i. i < length code_chunks \<and> ?N i}"
      by blast
    have s: "extract_sync env max_workers order code_chunks = Inr k"
      using assms(1,2) info k(1) by (simp add: extract_sync_def)
    note facts = named_set_facts [where g = chunk_id and N = "?N", OF assms(3) k(2)]
    from s k(2) facts
    show "\<exists>k. extract_sync env max_workers order code_chunks = Inr k
               \<and> set (contributions k)
                   = {chunk_id (code_chunks ! i) | i.
                        i < length code_chunks \<and> names_sync (chunk_outcome env i (code_chunks ! i))}
               \<and> ((\<forall>i<length code_chunks. names_sync (chunk_outcome env i (code_chunks ! i))) \<longrightarrow>
                     set (contributions k) = set (map chunk_id code_chunks)
                     \<and> card (set (contributions k)) = length code_chunks)
               \<and> (\<forall>i<length code_chunks. \<not> names_sync (chunk_outcome env i (code_chunks ! i)) \<longrightarrow>
                     chunk_id (code_chunks ! i) \<notin> set (contributions k))"
      by blast
  }
  {
    assume wf: "\<forall>i<length code_chunks. well_formed_async (chunk_outcome_async env i (code_chunks ! i))"
    let ?N = "\<lambda>i. names_async (chunk_outcome_async env i (code_chunks ! i))"
    from async_names_every_chunk [OF wf, of order info] obtain rs
      where rs: "gather order (tasks env code_chunks) = Inr rs"
        "set (contributions (foldl place_item (empty_knowledge info) (concat rs)))
           = {chunk_id (code_chunks ! i) | i. i < length code_chunks \<and> ?N i}"
      by blast
    have a: "extract_async env max_workers order code_chunks
               = Inr (foldl place_item (empty_knowledge info) (concat rs))"
      using assms(1,2) info rs(1) by (simp add: extract_async_def)
    note facts = named_set_facts [where g = chunk_id and N = "?N", OF assms(3) rs(2)]
    from a rs(2) facts
    show "\<exists>k. extract_async env max_workers order code_chunks = Inr k
               \<and> set (contributions k)
                   = {chunk_id (code_chunks ! i) | i.
                        i < length code_chunks
                        \<and> names_async (chunk_outcome_async env i (code_chunks ! i))}
               \<and> ((\<forall>i<length code_chunks. names_async (chunk_outcome_async env i (code_chunks ! i))) \<longrightarrow>
                     set (contributions k) = set (map chunk_id code_chunks)
                     \<and> card (set (contributions k)) = length code_chunks)
               \<and> (\<forall>i<length code_chunks.
                     \<not> names_async (chunk_outcome_async env i (code_chunks ! i)) \<longrightarrow>
                     chunk_id (code_chunks ! i) \<notin> set (contributions k))"
      by blast
  }
qed

theorem named_chunks_of_the_aggregate_witness:
  "(\<exists>k. extract_sync env_mixed 2 [1, 0] [chunk_a, chunk_b] = Inr k
        \<and> set (contributions k) = {(''a.py'', 0), (''b.py'', 1)}
        \<and> card (set (contributions k)) = 2)
   \<and> (\<exists>k. extract_async env_mixed 2 [1, 0] [chunk_a, chunk_b] = Inr k
        \<and> set (contributions k) = {(''a.py'', 0), (''b.py'', 1)}
        \<and> card (set (contributions k)) = 2)
   \<and> (\<exists>k. extract_sync env_full_then_methods 2 [1, 0] [chunk_a, chunk_b] = Inr k
        \<and> set (contributions k) = {(''a.py'', 0)})
   \<and> (\<exists>k. extract_async env_full_then_methods 2 [1, 0] [chunk_a, chunk_b] = Inr k
        \<and> set (contributions k) = {(''a.py'', 0)})"
proof -
  have h2: "(0::int) < 2" by simp
  have h3: "distinct (map chunk_id [chunk_a, chunk_b])"
    by (simp add: chunk_id_def chunk_a_def chunk_b_def)
  have ids: "set (map chunk_id [chunk_a, chunk_b]) = {(''a.py'', 0), (''b.py'', 1)}"
    by (simp add: chunk_id_def chunk_a_def chunk_b_def)
  have ida: "chunk_id chunk_a = (''a.py'', 0)"
    by (simp add: chunk_id_def chunk_a_def)
  have two: "(\<forall>i<length [chunk_a, chunk_b]. P i) \<longleftrightarrow> P 0 \<and> P (Suc 0)" for P
    by (auto simp: less_Suc_eq)
  have idx: "{i. i < length [chunk_a, chunk_b] \<and> N i}
               = (if N 0 then {0} else {}) \<union> (if N (Suc 0) then {Suc 0} else {})" for N
  proof -
    have lt: "i < length [chunk_a, chunk_b] \<longleftrightarrow> i = 0 \<or> i = Suc 0" for i by auto
    have "{i. i < length [chunk_a, chunk_b] \<and> N i} = {i. (i = 0 \<or> i = Suc 0) \<and> N i}"
      by (simp only: lt)
    also have "\<dots> = (if N 0 then {0} else {}) \<union> (if N (Suc 0) then {Suc 0} else {})"
      by (auto intro!: gr0I)
    finally show ?thesis .
  qed
  have pick: "{chunk_id ([chunk_a, chunk_b] ! i) | i. i < length [chunk_a, chunk_b] \<and> N i}
                = (if N 0 then {chunk_id chunk_a} else {}) \<union> (if N (Suc 0) then {chunk_id chunk_b} else {})"
    for N
  proof -
    have "{chunk_id ([chunk_a, chunk_b] ! i) | i. i < length [chunk_a, chunk_b] \<and> N i}
            = (\<lambda>i. chunk_id ([chunk_a, chunk_b] ! i)) ` {i. i < length [chunk_a, chunk_b] \<and> N i}"
      by blast
    then show ?thesis unfolding idx by auto
  qed
  have m1: "env_faiss env_mixed [chunk_a, chunk_b] = None"
    by (simp add: env_mixed_def)
  have h4: "[chunk_a, chunk_b] \<noteq> []" by simp
  note mixed = named_chunks_of_the_aggregate [OF m1 h2 h3 h4, of "[1, 0]"]
  have ws: "\<forall>i<length [chunk_a, chunk_b].
              well_formed_sync (chunk_outcome env_mixed i ([chunk_a, chunk_b] ! i))"
    unfolding two
    by (simp add: outcome_mixed_first outcome_mixed_second [unfolded One_nat_def]
        well_formed_sync_def result_methods_def)
  have ns: "\<forall>i<length [chunk_a, chunk_b].
              names_sync (chunk_outcome env_mixed i ([chunk_a, chunk_b] ! i))"
    unfolding two
    by (simp add: outcome_mixed_first outcome_mixed_second [unfolded One_nat_def]
        names_sync_def has_entry_key_def)
  have wa: "\<forall>i<length [chunk_a, chunk_b].
              well_formed_async (chunk_outcome_async env_mixed i ([chunk_a, chunk_b] ! i))"
    unfolding two
    by (simp add: outcome_mixed_first_async outcome_mixed_second_async [unfolded One_nat_def]
        well_formed_async_def result_methods_def method_fact_def)
  have na: "\<forall>i<length [chunk_a, chunk_b].
              names_async (chunk_outcome_async env_mixed i ([chunk_a, chunk_b] ! i))"
    unfolding two
    by (simp add: outcome_mixed_first_async outcome_mixed_second_async [unfolded One_nat_def]
        names_async_def has_entry_key_def)
  from mixed [THEN conjunct1, THEN mp, OF ws] obtain k1
    where k1: "extract_sync env_mixed 2 [1, 0] [chunk_a, chunk_b] = Inr k1"
      "(\<forall>i<length [chunk_a, chunk_b].
          names_sync (chunk_outcome env_mixed i ([chunk_a, chunk_b] ! i))) \<longrightarrow>
        set (contributions k1) = set (map chunk_id [chunk_a, chunk_b])
        \<and> card (set (contributions k1)) = length [chunk_a, chunk_b]"
    by blast
  from k1(2) ns have "set (contributions k1) = {(''a.py'', 0), (''b.py'', 1)}"
    "card (set (contributions k1)) = 2"
    unfolding ids by simp_all
  with k1(1) have a: "\<exists>k. extract_sync env_mixed 2 [1, 0] [chunk_a, chunk_b] = Inr k
        \<and> set (contributions k) = {(''a.py'', 0), (''b.py'', 1)}
        \<and> card (set (contributions k)) = 2"
    by blast
  from mixed [THEN conjunct2, THEN mp, OF wa] obtain k2
    where k2: "extract_async env_mixed 2 [1, 0] [chunk_a, chunk_b] = Inr k2"
      "(\<forall>i<length [chunk_a, chunk_b].
          names_async (chunk_outcome_async env_mixed i ([chunk_a, chunk_b] ! i))) \<longrightarrow>
        set (contributions k2) = set (map chunk_id [chunk_a, chunk_b])
        \<and> card (set (contributions k2)) = length [chunk_a, chunk_b]"
    by blast
  from k2(2) na have "set (contributions k2) = {(''a.py'', 0), (''b.py'', 1)}"
    "card (set (contributions k2)) = 2"
    unfolding ids by simp_all
  with k2(1) have b: "\<exists>k. extract_async env_mixed 2 [1, 0] [chunk_a, chunk_b] = Inr k
        \<and> set (contributions k) = {(''a.py'', 0), (''b.py'', 1)}
        \<and> card (set (contributions k)) = 2"
    by blast
  have f1: "env_faiss env_full_then_methods [chunk_a, chunk_b] = None"
    by (simp add: env_full_then_methods_def)
  note part = named_chunks_of_the_aggregate [OF f1 h2 h3 h4, of "[1, 0]"]
  have pws: "\<forall>i<length [chunk_a, chunk_b].
              well_formed_sync (chunk_outcome env_full_then_methods i ([chunk_a, chunk_b] ! i))"
    unfolding two
    by (simp add: outcome_full_then_methods_first
        outcome_full_then_methods_second [unfolded One_nat_def]
        well_formed_sync_def result_methods_def)
  have pwa: "\<forall>i<length [chunk_a, chunk_b].
              well_formed_async (chunk_outcome_async env_full_then_methods i ([chunk_a, chunk_b] ! i))"
    unfolding two
    by (simp add: outcome_full_then_methods_first_async
        outcome_full_then_methods_second_async [unfolded One_nat_def]
        well_formed_async_def result_methods_def method_fact_def)
  from part [THEN conjunct1, THEN mp, OF pws] obtain k3
    where k3: "extract_sync env_full_then_methods 2 [1, 0] [chunk_a, chunk_b] = Inr k3"
      "set (contributions k3)
         = {chunk_id ([chunk_a, chunk_b] ! i) | i. i < length [chunk_a, chunk_b]
              \<and> names_sync (chunk_outcome env_full_then_methods i ([chunk_a, chunk_b] ! i))}"
    by blast
  have "set (contributions k3) = {(''a.py'', 0)}"
    unfolding k3(2) pick
    by (simp add: ida outcome_full_then_methods_first
        outcome_full_then_methods_second [unfolded One_nat_def] names_sync_def has_entry_key_def)
  with k3(1) have c: "\<exists>k. extract_sync env_full_then_methods 2 [1, 0] [chunk_a, chunk_b] = Inr k
        \<and> set (contributions k) = {(''a.py'', 0)}"
    by simp
  from part [THEN conjunct2, THEN mp, OF pwa] obtain k4
    where k4: "extract_async env_full_then_methods 2 [1, 0] [chunk_a, chunk_b] = Inr k4"
      "set (contributions k4)
         = {chunk_id ([chunk_a, chunk_b] ! i) | i. i < length [chunk_a, chunk_b]
              \<and> names_async (chunk_outcome_async env_full_then_methods i ([chunk_a, chunk_b] ! i))}"
    by blast
  have "set (contributions k4) = {(''a.py'', 0)}"
    unfolding k4(2) pick
    by (simp add: ida outcome_full_then_methods_first_async
        outcome_full_then_methods_second_async [unfolded One_nat_def] names_async_def
        has_entry_key_def result_methods_def)
  with k4(1) have d: "\<exists>k. extract_async env_full_then_methods 2 [1, 0] [chunk_a, chunk_b] = Inr k
        \<and> set (contributions k) = {(''a.py'', 0)}"
    by simp
  from a b c d show ?thesis by blast
qed

text \<open>
  C1 as the spec states it fails for a result that has the key \<open>methods\<close> and none of
  \<open>overview\<close>, \<open>complexity\<close>, \<open>notes\<close>. In the synchronous extractor the answer
  \<open>{"methods":[]}\<close> leaves the aggregate empty; in the asynchronous one an answer with one
  method adds that method and nothing that names the chunk. One chunk went in, and no
  entry of \<open>overview\<close>, \<open>complexity\<close> or \<open>notes\<close> came out.
\<close>

theorem methods_only_chunk_is_not_named:
  "extract_sync (env_answering no_methods) 1 [0] [chunk_a]
     = Inr \<lparr>project_info = JObj [], overview = [], methods = [], complexity = [], notes_of = []\<rparr>
   \<and> contributions
        \<lparr>project_info = JObj [], overview = [], methods = [], complexity = [], notes_of = []\<rparr> = []
   \<and> extract_async (env_answering one_method) 1 [0] [chunk_a]
     = Inr \<lparr>project_info = JObj [], overview = [],
            methods = [JObj [(''type'', JStr ''methods''), (''name'', JStr ''f''),
                             (''signature'', JStr ''f()''), (''description'', JStr ''d'')]],
            complexity = [], notes_of = []\<rparr>
   \<and> contributions
        \<lparr>project_info = JObj [], overview = [],
         methods = [JObj [(''type'', JStr ''methods''), (''name'', JStr ''f''),
                          (''signature'', JStr ''f()''), (''description'', JStr ''d'')]],
         complexity = [], notes_of = []\<rparr> = []"
proof (intro conjI)
  show "extract_sync (env_answering no_methods) 1 [0] [chunk_a]
     = Inr \<lparr>project_info = JObj [], overview = [], methods = [], complexity = [], notes_of = []\<rparr>"
    by (simp add: extract_sync_def faiss_answering summary_answering submit_all_def enumerate_eq_zip
        outcome_no_methods sync_step_def collect_def as_completed_def empty_knowledge_def)
  show "extract_async (env_answering one_method) 1 [0] [chunk_a]
     = Inr \<lparr>project_info = JObj [], overview = [],
            methods = [JObj [(''type'', JStr ''methods''), (''name'', JStr ''f''),
                             (''signature'', JStr ''f()''), (''description'', JStr ''d'')]],
            complexity = [], notes_of = []\<rparr>"
    by (simp add: extract_async_def faiss_answering summary_answering tasks_def enumerate_eq_zip
        outcome_one_method_async process_chunk_with_limit_def
        result_items_def method_item_def gather_def as_completed_def
        empty_knowledge_def place_item_def)
qed (simp_all add: contributions_def)

text \<open>
  C9, as the code has it. The oracle is a deterministic stub: every call for a chunk is
  answered by the same function of the prompt. The scheduler enters through the order in
  which the analyses complete, which is arbitrary at any number of workers. With \<open>K\<close>
  workers, \<open>K\<close> at least 1, and any order, each extractor ends as it does with one worker
  and any other order: both runs raise, or both return. The asynchronous extractor
  gathers its results in the order of the tasks, so its two aggregates are equal. The two
  aggregates of the synchronous extractor have the same \<open>project_info\<close> and, up to the
  order, the same entries of \<open>overview\<close>, \<open>complexity\<close> and \<open>notes\<close>; and also the same
  methods up to the order, provided the equality of Python holds between no two
  different methods of the results.
\<close>

theorem concurrency_keeps_content:
  assumes "1 \<le> K" and "\<forall>i k. env_llm env (Chunk_call i k) = stub"
  shows "same_outcome (=) (extract_async env K order code_chunks)
             (extract_async env 1 order' code_chunks)
         \<and> same_outcome same_entries (extract_sync env K order code_chunks)
             (extract_sync env 1 order' code_chunks)
         \<and> (plain_equality (all_methods env code_chunks) \<longrightarrow>
              same_outcome same_content (extract_sync env K order code_chunks)
                (extract_sync env 1 order' code_chunks))"
proof (cases "env_faiss env code_chunks")
  case (Some e)
  then show ?thesis
    by (simp add: extract_sync_def extract_async_def same_outcome_def)
next
  case None
  obtain info where info: "project_summary env = Inr info"
    using project_summary_total by blast
  let ?futs = "submit_all env code_chunks"
  let ?k = "empty_knowledge info"
  have m: "mset (as_completed order ?futs) = mset (as_completed order' ?futs)"
    by (simp add: as_completed_mset)
  have "same_outcome same_entries
      (sync_loop ?k (as_completed order ?futs)) (sync_loop ?k (as_completed order' ?futs))"
    using m grown_same_entries [OF m] by (rule sync_loop_same_outcome)
  then have s: "same_outcome same_entries (extract_sync env K order code_chunks)
      (extract_sync env 1 order' code_chunks)"
    using None info assms(1) by (simp add: extract_sync_def)
  have c: "same_outcome same_content (extract_sync env K order code_chunks)
      (extract_sync env 1 order' code_chunks)"
    if plain: "plain_equality (all_methods env code_chunks)"
  proof -
    have "set (concat (map fut_methods (as_completed order ?futs))) = set (all_methods env code_chunks)"
      by (simp add: all_methods_def as_completed_set)
    with plain have "plain_equality (concat (map fut_methods (as_completed order ?futs)))"
      by (simp only: plain_equality_iff)
    then have "same_content (grown ?k (as_completed order ?futs)) (grown ?k (as_completed order' ?futs))"
      using m by (intro grown_same_content) (simp_all add: empty_knowledge_def)
    with m have "same_outcome same_content
        (sync_loop ?k (as_completed order ?futs)) (sync_loop ?k (as_completed order' ?futs))"
      by (rule sync_loop_same_outcome)
    then show ?thesis
      using None info assms(1) by (simp add: extract_sync_def)
  qed
  have "same_outcome (=)
      (case gather order (tasks env code_chunks) of Inl e \<Rightarrow> Inl e
       | Inr results \<Rightarrow> Inr (foldl place_item (empty_knowledge info) (concat results)))
      (case gather order' (tasks env code_chunks) of Inl e \<Rightarrow> Inl e
       | Inr results \<Rightarrow> Inr (foldl place_item (empty_knowledge info) (concat results)))"
    using gather_same_outcome [of order "tasks env code_chunks" order']
    by (auto simp: same_outcome_def split: sum.splits)
  then have a: "same_outcome (=) (extract_async env K order code_chunks)
      (extract_async env 1 order' code_chunks)"
    using None info assms(1) by (simp add: extract_async_def)
  from s a c show ?thesis by simp
qed

theorem concurrency_keeps_content_witness:
  "same_outcome (=)
       (extract_async (env_answering full_answer) 2 [1, 0] [chunk_a, chunk_b])
       (extract_async (env_answering full_answer) 1 [0, 1] [chunk_a, chunk_b])
   \<and> same_outcome same_content
       (extract_sync (env_answering full_answer) 2 [1, 0] [chunk_a, chunk_b])
       (extract_sync (env_answering full_answer) 1 [0, 1] [chunk_a, chunk_b])
   \<and> extract_sync (env_answering full_answer) 2 [1, 0] [chunk_a, chunk_b]
       = Inr \<lparr>project_info = JObj [],
              overview = [tagged chunk_b ''overview'' (JStr ''x''), tagged chunk_a ''overview'' (JStr ''x'')],
              methods = [JObj [(''name'', JStr ''f'')]],
              complexity = [tagged chunk_b ''complexity'' (JStr ''low''),
                            tagged chunk_a ''complexity'' (JStr ''low'')],
              notes_of = [tagged chunk_b ''notes'' (JStr []), tagged chunk_a ''notes'' (JStr [])]\<rparr>
   \<and> extract_sync (env_answering full_answer) 1 [0, 1] [chunk_a, chunk_b]
       = Inr \<lparr>project_info = JObj [],
              overview = [tagged chunk_a ''overview'' (JStr ''x''), tagged chunk_b ''overview'' (JStr ''x'')],
              methods = [JObj [(''name'', JStr ''f'')]],
              complexity = [tagged chunk_a ''complexity'' (JStr ''low''),
                            tagged chunk_b ''complexity'' (JStr ''low'')],
              notes_of = [tagged chunk_a ''notes'' (JStr []), tagged chunk_b ''notes'' (JStr [])]\<rparr>"
proof -
  have h1: "(1::int) \<le> 2" by simp
  have h2: "\<forall>i k. env_llm (env_answering full_answer) (Chunk_call i k) = (\<lambda>prompt. Inr full_answer)"
    by (simp add: env_answering_def)
  note main = concurrency_keeps_content
    [where env = "env_answering full_answer" and K = 2 and order = "[1, 0]" and order' = "[0, 1]"
       and code_chunks = "[chunk_a, chunk_b]", OF h1 h2]
  have "all_methods (env_answering full_answer) [chunk_a, chunk_b]
          = [JObj [(''name'', JStr ''f'')], JObj [(''name'', JStr ''f'')]]"
    by (simp add: all_methods_def submit_all_def enumerate_eq_zip upt_conv_Cons outcome_full_answer
        fut_methods_def)
  then have h3: "plain_equality (all_methods (env_answering full_answer) [chunk_a, chunk_b])"
    by (simp add: plain_equality_def)
  have a: "extract_sync (env_answering full_answer) 2 [1, 0] [chunk_a, chunk_b]
       = Inr \<lparr>project_info = JObj [],
              overview = [tagged chunk_b ''overview'' (JStr ''x''), tagged chunk_a ''overview'' (JStr ''x'')],
              methods = [JObj [(''name'', JStr ''f'')]],
              complexity = [tagged chunk_b ''complexity'' (JStr ''low''),
                            tagged chunk_a ''complexity'' (JStr ''low'')],
              notes_of = [tagged chunk_b ''notes'' (JStr []), tagged chunk_a ''notes'' (JStr [])]\<rparr>"
    by (simp add: extract_sync_def faiss_answering summary_answering submit_all_def enumerate_eq_zip
        upt_conv_Cons outcome_full_answer sync_step_def collect_def py_in_def
        as_completed_def empty_knowledge_def)
  have b: "extract_sync (env_answering full_answer) 1 [0, 1] [chunk_a, chunk_b]
       = Inr \<lparr>project_info = JObj [],
              overview = [tagged chunk_a ''overview'' (JStr ''x''), tagged chunk_b ''overview'' (JStr ''x'')],
              methods = [JObj [(''name'', JStr ''f'')]],
              complexity = [tagged chunk_a ''complexity'' (JStr ''low''),
                            tagged chunk_b ''complexity'' (JStr ''low'')],
              notes_of = [tagged chunk_a ''notes'' (JStr []), tagged chunk_b ''notes'' (JStr [])]\<rparr>"
    by (simp add: extract_sync_def faiss_answering summary_answering submit_all_def enumerate_eq_zip
        upt_conv_Cons outcome_full_answer sync_step_def collect_def py_in_def
        as_completed_def empty_knowledge_def)
  from main [THEN conjunct1] main [THEN conjunct2, THEN conjunct2, rule_format, OF h3] a b
  show ?thesis by blast
qed

text \<open>
  C9 as the spec states it fails for the methods of the synchronous extractor. The stub
  answers the code of the first chunk with the methods \<open>[true]\<close> and any other code with
  \<open>[1]\<close>. In Python \<open>True == 1\<close>, so the test \<open>method not in knowledge['methods']\<close> keeps
  the value that arrives first and drops the other: with two workers and the second
  chunk completing first the aggregate holds \<open>1\<close>, with one worker it holds \<open>true\<close>.
\<close>

theorem completion_order_changes_methods:
  "(\<forall>i k. env_llm env_true_or_one (Chunk_call i k) = stub_true_or_one)
   \<and> extract_sync env_true_or_one 2 [1, 0] [chunk_a, chunk_b]
       = Inr \<lparr>project_info = JObj [], overview = [], methods = [JNum 1], complexity = [],
              notes_of = []\<rparr>
   \<and> extract_sync env_true_or_one 1 [0, 1] [chunk_a, chunk_b]
       = Inr \<lparr>project_info = JObj [], overview = [], methods = [JBool True], complexity = [],
              notes_of = []\<rparr>"
proof (intro conjI)
  show "\<forall>i k. env_llm env_true_or_one (Chunk_call i k) = stub_true_or_one"
    by (simp add: env_true_or_one_def)
  have f: "env_faiss env_true_or_one cs = None" for cs
    by (simp add: env_true_or_one_def)
  have p: "project_summary env_true_or_one = Inr (JObj [])"
    by (simp add: project_summary_def readme_try_def env_true_or_one_def)
  show "extract_sync env_true_or_one 2 [1, 0] [chunk_a, chunk_b]
       = Inr \<lparr>project_info = JObj [], overview = [], methods = [JNum 1], complexity = [],
              notes_of = []\<rparr>"
    by (simp add: extract_sync_def f p submit_all_def enumerate_eq_zip
        upt_conv_Cons outcome_true_or_one_first outcome_true_or_one_second sync_step_def
        collect_def py_in_def as_completed_def empty_knowledge_def)
  show "extract_sync env_true_or_one 1 [0, 1] [chunk_a, chunk_b]
       = Inr \<lparr>project_info = JObj [], overview = [], methods = [JBool True], complexity = [],
              notes_of = []\<rparr>"
    by (simp add: extract_sync_def f p submit_all_def enumerate_eq_zip
        upt_conv_Cons outcome_true_or_one_first outcome_true_or_one_second sync_step_def
        collect_def py_in_def as_completed_def empty_knowledge_def)
qed

end
